theory Spec2Isabelle
  imports Main "HOL-Library.Sublist"
begin

chapter \<open>The claim verification and classification pipeline\<close>

text \<open>
  A shallow embedding of the fact-checking core of the repository: the token helpers of
  \<^verbatim>\<open>main4.py\<close> and \<^verbatim>\<open>main6.py\<close>, the label extraction of \<^verbatim>\<open>main5.py\<close> and
  \<^verbatim>\<open>main6.py\<close>, the news search and the claim loop of \<^verbatim>\<open>fact_check.py\<close>, the
  provider pool of \<^verbatim>\<open>main4.py\<close>, and the two drivers.

  Conventions. Python strings are \<^typ>\<open>string\<close>; the model reads them as ASCII text (the
  pipeline translates its input to English before this stage), so the character classes
  and the case mappings below are the ASCII ones and leave every other character alone.
  Python integers are \<^typ>\<open>int\<close>. A dictionary key that may be absent is an \<^typ>\<open>'a option\<close>
  field. Everything the code obtains from outside (HTTP responses, the tokenizer, the
  generative model, the file system) is read from an environment record, and every call
  made to the outside is appended to a log in the world record, so that "no call was
  made" is a statement about the log.
\<close>

section \<open>Python string primitives\<close>

text \<open>\<^verbatim>\<open>needle in hay\<close> on strings.\<close>

fun py_in :: "string \<Rightarrow> string \<Rightarrow> bool" where
  "py_in needle [] = (needle = [])"
| "py_in needle (c # cs) = (prefix needle (c # cs) \<or> py_in needle cs)"

definition ascii_lowercase :: string where
  "ascii_lowercase = ''abcdefghijklmnopqrstuvwxyz''"

definition ascii_uppercase :: string where
  "ascii_uppercase = ''ABCDEFGHIJKLMNOPQRSTUVWXYZ''"

definition digits :: string where
  "digits = ''0123456789''"

definition upper_char :: "char \<Rightarrow> char" where
  "upper_char c = (case map_of (zip ascii_lowercase ascii_uppercase) c of
                     Some u \<Rightarrow> u | None \<Rightarrow> c)"

definition lower_char :: "char \<Rightarrow> char" where
  "lower_char c = (case map_of (zip ascii_uppercase ascii_lowercase) c of
                     Some l \<Rightarrow> l | None \<Rightarrow> c)"

text \<open>\<^verbatim>\<open>s.upper()\<close> and \<^verbatim>\<open>s.lower()\<close>.\<close>

definition upper :: "string \<Rightarrow> string" where
  "upper s = map upper_char s"

definition lower :: "string \<Rightarrow> string" where
  "lower s = map lower_char s"

text \<open>The regular-expression classes \<^verbatim>\<open>\w\<close> and \<^verbatim>\<open>\s\<close>.\<close>

definition is_word_char :: "char \<Rightarrow> bool" where
  "is_word_char c = (c \<in> set (ascii_lowercase @ ascii_uppercase @ digits @ ''_''))"

definition is_space_char :: "char \<Rightarrow> bool" where
  "is_space_char c =
     (c \<in> set [CHR '' '', CHR 0x09, CHR 0x0A, CHR 0x0B, CHR 0x0C, CHR 0x0D,
               CHR 0x1C, CHR 0x1D, CHR 0x1E, CHR 0x1F])"

text \<open>\<^verbatim>\<open>s.strip()\<close>.\<close>

definition strip :: "string \<Rightarrow> string" where
  "strip s = rev (dropWhile is_space_char (rev (dropWhile is_space_char s)))"

text \<open>
  \<^verbatim>\<open>text[:k]\<close>: a non-negative bound keeps the first \<open>k\<close> characters, a negative one
  drops the last \<open>-k\<close>.
\<close>

definition slice_to :: "string \<Rightarrow> int \<Rightarrow> string" where
  "slice_to text k =
     (if 0 \<le> k then take (nat k) text else take (length text - nat (- k)) text)"

text \<open>
  \<^verbatim>\<open>s.rsplit(' ', 1)[0]\<close>: what precedes the last space, or all of \<open>s\<close> when it has no
  space.
\<close>

definition rsplit_space_head :: "string \<Rightarrow> string" where
  "rsplit_space_head s =
     (if CHR '' '' \<in> set s
      then rev (tl (dropWhile (\<lambda>c. c \<noteq> CHR '' '') (rev s)))
      else s)"

text \<open>\<^verbatim>\<open>str(n)\<close> for a natural number.\<close>

fun str_of_nat :: "nat \<Rightarrow> string" where
  "str_of_nat n =
     (if n < 10 then [digits ! n] else str_of_nat (n div 10) @ [digits ! (n mod 10)])"

declare str_of_nat.simps [simp del]

text \<open>\<^verbatim>\<open>sep.join(xs)\<close>.\<close>

fun py_join :: "string \<Rightarrow> string list \<Rightarrow> string" where
  "py_join sep [] = []"
| "py_join sep [x] = x"
| "py_join sep (x # y # ys) = x @ sep @ py_join sep (y # ys)"

definition newline :: string where
  "newline = [CHR 0x0A]"

section \<open>Token budget\<close>

text \<open>
  \<^verbatim>\<open>main4.py\<close>, \<^verbatim>\<open>truncate_text_for_tokens\<close>: four characters per token; an
  overlong text is cut at the character bound, then back to the last space, and an
  ellipsis is appended.
\<close>

definition truncate_text_for_tokens :: "string \<Rightarrow> int \<Rightarrow> string" where
  "truncate_text_for_tokens text max_tokens =
     (let max_chars = max_tokens * 4
      in if int (length text) \<le> max_chars then text
         else rsplit_space_head (slice_to text max_chars) @ ''...'')"

text \<open>\<^verbatim>\<open>main6.py\<close>, \<^verbatim>\<open>count_tokens\<close>: \<^verbatim>\<open>len(text) // 4\<close>.\<close>

definition count_tokens_chars :: "string \<Rightarrow> int" where
  "count_tokens_chars text = int (length text) div 4"

text \<open>
  \<^verbatim>\<open>main6.py\<close>, \<^verbatim>\<open>truncate_text_to_tokens\<close>. The body of its \<^verbatim>\<open>try\<close> cannot raise on a
  string and an integer, so the handler is unreachable.
\<close>

definition truncate_text_to_tokens :: "string \<Rightarrow> int \<Rightarrow> string" where
  "truncate_text_to_tokens text max_tokens =
     (let max_chars = max_tokens * 4
      in if int (length text) \<le> max_chars then text else slice_to text max_chars)"

section \<open>Label extraction\<close>

text \<open>
  \<^verbatim>\<open>main6.py\<close>, the label part of \<^verbatim>\<open>classify_claim_with_gemini\<close>: the label starts as
  \<^verbatim>\<open>"unknown"\<close> and is overwritten by the first of three patterns found in the
  upper-cased response.
\<close>

definition gemini_label :: "string \<Rightarrow> string" where
  "gemini_label result_text =
     (if py_in ''LABEL: TRUE'' (upper result_text) then ''true''
      else if py_in ''LABEL: FALSE'' (upper result_text) then ''false''
      else if py_in ''LABEL: UNVERIFIABLE'' (upper result_text) then ''unverifiable''
      else ''unknown'')"

definition isnt :: string where
  "isnt = ''isn'' @ [CHR 0x27] @ ''t''"

text \<open>\<^verbatim>\<open>main5.py\<close>, \<^verbatim>\<open>extract_classification\<close>.\<close>

definition extract_classification :: "string \<Rightarrow> string" where
  "extract_classification response_text =
     (let response_lower = lower response_text
      in if py_in ''false'' response_lower then
           (if py_in ''not false'' response_lower \<or> py_in (isnt @ '' false'') response_lower
            then ''TRUE'' else ''FALSE'')
         else if py_in ''true'' response_lower then
           (if py_in ''not true'' response_lower \<or> py_in (isnt @ '' true'') response_lower
            then ''FALSE'' else ''TRUE'')
         else if py_in ''claim is correct'' response_lower
                 \<or> py_in ''claim is accurate'' response_lower then ''TRUE''
         else if py_in ''claim is incorrect'' response_lower
                 \<or> py_in ''claim is inaccurate'' response_lower
                 \<or> py_in ''claim is wrong'' response_lower then ''FALSE''
         else if py_in ''no evidence'' response_lower
                 \<or> py_in ''cannot be verified'' response_lower then ''FALSE''
         else ''UNVERIFIABLE'')"

section \<open>Data model\<close>

text \<open>
  A claim record of the claims input. The code reads every text field with
  \<^verbatim>\<open>claim_data.get(key, "")\<close>, so an absent key and an empty string are the same to it
  and the field is a \<^typ>\<open>string\<close>; \<^verbatim>\<open>needs_external_verification\<close> is read with the
  default \<^verbatim>\<open>True\<close>, so its absence is kept apart as \<^term>\<open>None\<close>.
\<close>

record claim =
  c_claim :: string
  c_original_claim :: string
  c_search_query :: string
  c_category :: string
  c_verification_status :: string
  c_confidence :: string
  c_explanation :: string
  c_fact_check_notes :: string
  c_potential_impact :: string
  c_source_url :: string
  c_post_number :: string
  c_needs_external_verification :: "bool option"
  c_historical_evidence :: string

text \<open>A search hit, in the shape both providers are normalised to.\<close>

record article =
  a_title :: string
  a_description :: string
  a_url :: string
  a_source_name :: string
  a_publishedAt :: string
  a_content :: string

text \<open>An article of a result record: \<^verbatim>\<open>content\<close> is \<^verbatim>\<open>null\<close> when the fetch failed.\<close>

record article_data =
  d_title :: string
  d_description :: string
  d_url :: string
  d_source :: string
  d_publishedAt :: string
  d_content :: "string option"
  d_content_tokens :: int

text \<open>
  A result record of \<^verbatim>\<open>process_claims\<close>. The keys \<^verbatim>\<open>verification_result\<close> and
  \<^verbatim>\<open>historical_evidence\<close> are set on some paths only: \<^term>\<open>None\<close> is an absent key.
\<close>

record claim_result =
  r_claim :: string
  r_original_claim :: string
  r_search_query :: string
  r_category :: string
  r_verification_status :: string
  r_confidence :: string
  r_explanation :: string
  r_fact_check_notes :: string
  r_potential_impact :: string
  r_source_url :: string
  r_post_number :: string
  r_articles :: "article_data list"
  r_total_tokens :: int
  r_needs_external_verification :: bool
  r_verification_result :: "string option"
  r_historical_evidence :: "string option"

text \<open>What the classifier of \<^verbatim>\<open>main5.py\<close> returns for one claim.\<close>

record llm_classification =
  l_label :: string
  l_llm_response :: string
  l_reasoning :: string

text \<open>What the classifier of \<^verbatim>\<open>main6.py\<close> returns; \<^verbatim>\<open>tokens_used\<close> is set on one path.\<close>

record gemini_classification =
  g_label :: string
  g_explanation :: string
  g_full_response :: string
  g_tokens_used :: "(int \<times> int) option"

text \<open>An entry and the document of the classification output of \<^verbatim>\<open>main5.py\<close>.\<close>

record classification_entry =
  e_claim :: string
  e_original_claim :: string
  e_search_query :: string
  e_category :: string
  e_classification :: string
  e_reasoning :: string
  e_full_response :: string
  e_articles_count :: nat
  e_articles_used :: "(string \<times> string \<times> string) list"

record classification_results =
  cr_model_used :: string
  cr_max_tokens :: int
  cr_max_response_tokens :: int
  cr_classifications :: "classification_entry list"

section \<open>The outside world\<close>

datatype provider = GNews | NewsAPI

record request =
  req_provider :: provider
  req_query :: string
  req_max :: int

text \<open>
  The outcome of \<^verbatim>\<open>requests.get\<close> on a search endpoint: a status code with the
  \<^verbatim>\<open>articles\<close> list of the body (empty when the key is absent), or an exception of
  \<^verbatim>\<open>requests\<close> (a body that is not JSON raises one of these as well).
\<close>

datatype http_result = Response int "article list" | RequestException

datatype model_call = Llama_chat string string | Gemini_generate string bool

text \<open>
  The outcome of one streamed chat completion of the local model: the text fragments, or
  an exception raised by the call or while the stream is read.
\<close>

datatype llm_result = Chunks "string list" | LlmException string

text \<open>
  The outcome of \<^verbatim>\<open>model.generate_content\<close>: a text, a response stopped by the safety
  filter (\<^verbatim>\<open>finish_reason == 2\<close>), a response whose \<^verbatim>\<open>text\<close> raises \<^verbatim>\<open>ValueError\<close>, or
  an exception; with \<^verbatim>\<open>stream=True\<close>, the fragments or an exception.
\<close>

datatype gemini_result =
    GText string
  | GSafety
  | GValueError string
  | GException string

datatype gemini_stream = GChunks "string list" | GStreamException string

text \<open>What a file holds, as far as the drivers can tell.\<close>

datatype file_content =
    Claims_file "claim list"
  | Results_file "claim_result list"
  | Classification_file "classification_results option"
  | Other_file

text \<open>
  The world: the calls made so far, in order, and the files. A call to the outside is
  answered by the environment from the world before the call and the request.
\<close>

record world =
  search_log :: "request list"
  fetch_log :: "string list"
  model_log :: "model_call list"
  files :: "string \<rightharpoonup> file_content"

record env =
  http_search :: "world \<Rightarrow> request \<Rightarrow> http_result"
  http_get :: "world \<Rightarrow> string \<Rightarrow> string option"
  netloc :: "string \<Rightarrow> string"
  extract_content :: "string \<Rightarrow> string"
  tiktoken_len :: "string \<Rightarrow> nat option"
  tiktoken_truncate :: "string \<Rightarrow> int \<Rightarrow> string option"
  llm_chat :: "world \<Rightarrow> string \<Rightarrow> string \<Rightarrow> llm_result"
  model_loads :: "world \<Rightarrow> string \<Rightarrow> bool"
  can_write :: "world \<Rightarrow> string \<Rightarrow> bool"
  gemini_generate :: "world \<Rightarrow> string \<Rightarrow> gemini_result"
  gemini_stream :: "world \<Rightarrow> string \<Rightarrow> gemini_stream"

text \<open>
  In \<^typ>\<open>env\<close>: \<open>http_get\<close> is \<^verbatim>\<open>requests.get(url)\<close> with \<^verbatim>\<open>raise_for_status\<close>
  (\<^term>\<open>None\<close> when either raises); \<open>netloc\<close> is \<^verbatim>\<open>urlparse(url).netloc\<close>;
  \<open>extract_content\<close> is the regular-expression extraction of the article text from the
  page (lines 182 to 204 of \<^verbatim>\<open>fact_check.py\<close>), which no property below depends on;
  \<open>tiktoken_len\<close> and \<open>tiktoken_truncate\<close> are the tokenizer (\<^term>\<open>None\<close> when it
  raises); \<open>model_loads\<close> tells whether \<^verbatim>\<open>Llama(model_path)\<close> succeeds and
  \<open>can_write\<close> whether \<^verbatim>\<open>os.makedirs\<close> and \<^verbatim>\<open>open(filename, "w")\<close> do.
\<close>

section \<open>News search (\<^verbatim>\<open>fact_check.py\<close>)\<close>

text \<open>\<^verbatim>\<open>re.findall(r'\b\w+\b', s)\<close>: the maximal runs of word characters.\<close>

function findall_words :: "string \<Rightarrow> string list" where
  "findall_words [] = []"
| "findall_words (c # cs) =
     (if is_word_char c
      then (c # takeWhile is_word_char cs) # findall_words (dropWhile is_word_char cs)
      else findall_words cs)"
  by pat_completeness auto
termination
  by (relation "measure length") (auto simp: less_Suc_eq_le length_dropWhile_le)

definition generate_alternative_query :: "string \<Rightarrow> string" where
  "generate_alternative_query original_query =
     (let key_terms = findall_words original_query
      in if length key_terms \<ge> 3 then py_join '' '' (take 3 key_terms)
         else if length key_terms \<ge> 2 then py_join '' '' (take 2 key_terms)
         else original_query)"

text \<open>\<^verbatim>\<open>re.sub(r'\s+', ' ', s)\<close>.\<close>

function collapse_spaces :: "string \<Rightarrow> string" where
  "collapse_spaces [] = []"
| "collapse_spaces (c # cs) =
     (if is_space_char c then CHR '' '' # collapse_spaces (dropWhile is_space_char cs)
      else c # collapse_spaces cs)"
  by pat_completeness auto
termination
  by (relation "measure length") (auto simp: less_Suc_eq_le length_dropWhile_le)

definition sanitize_search_query :: "string \<Rightarrow> string" where
  "sanitize_search_query query =
     (let sanitized = map (\<lambda>c. if is_word_char c \<or> is_space_char c then c else CHR '' '') query;
          sanitized = strip (collapse_spaces sanitized)
      in if length sanitized > 100 then take 100 sanitized else sanitized)"

text \<open>
  \<^verbatim>\<open>make_api_call\<close>: \<^term>\<open>None\<close> is a hard failure (a status other than 200, or an
  exception of \<^verbatim>\<open>requests\<close>); a 200 gives the articles, possibly none. The request is
  logged whatever its outcome.
\<close>

definition make_api_call :: "env \<Rightarrow> world \<Rightarrow> request \<Rightarrow> article list option \<times> world" where
  "make_api_call env w req =
     (let w' = w\<lparr>search_log := search_log w @ [req]\<rparr>
      in case http_search env w req of
           Response status_code data_articles \<Rightarrow>
             if status_code = 200
             then (if data_articles \<noteq> [] then (Some data_articles, w') else (Some [], w'))
             else (None, w')
         | RequestException \<Rightarrow> (None, w'))"

text \<open>
  The block \<^verbatim>\<open>fetch_news_articles\<close> repeats four times: if the counter is below the
  ceiling, make the call and add one to the counter whatever the outcome; otherwise skip
  the call.
\<close>

definition guarded_api_call ::
  "env \<Rightarrow> world \<Rightarrow> request \<Rightarrow> int \<Rightarrow> int \<Rightarrow> article list option \<times> int \<times> world" where
  "guarded_api_call env w req current_api_calls max_api_calls =
     (if current_api_calls < max_api_calls
      then (let (articles, w') = make_api_call env w req
            in (articles, current_api_calls + 1, w'))
      else (None, current_api_calls, w))"

text \<open>The conversion of a NewsAPI article to the GNews shape.\<close>

definition converted_article :: "article \<Rightarrow> article" where
  "converted_article article =
     \<lparr>a_title = a_title article, a_description = a_description article,
      a_url = a_url article, a_source_name = a_source_name article,
      a_publishedAt = a_publishedAt article, a_content = a_content article\<rparr>"

text \<open>
  \<^verbatim>\<open>fetch_news_articles\<close>: GNews, then NewsAPI, then both again with the alternative
  query. It returns the articles and the new value of the counter.
\<close>

definition fetch_news_articles ::
  "env \<Rightarrow> world \<Rightarrow> string \<Rightarrow> int \<Rightarrow> int \<Rightarrow> int \<Rightarrow> (article list \<times> int) \<times> world" where
  "fetch_news_articles env w search_query current_api_calls max_api_calls max_articles =
     (let sanitized_query = sanitize_search_query search_query;
          (r1, c1, w1) = guarded_api_call env w
             \<lparr>req_provider = GNews, req_query = sanitized_query, req_max = max_articles\<rparr>
             current_api_calls max_api_calls
      in case r1 of
           Some articles \<Rightarrow> ((articles, c1), w1)
         | None \<Rightarrow>
     (let (r2, c2, w2) = guarded_api_call env w1
             \<lparr>req_provider = NewsAPI, req_query = sanitized_query, req_max = max_articles\<rparr>
             c1 max_api_calls
      in case r2 of
           Some articles \<Rightarrow> ((map converted_article articles, c2), w2)
         | None \<Rightarrow>
     (let alt_query = generate_alternative_query search_query
      in if alt_query = sanitized_query then (([], c2), w2)
         else
     (let (r3, c3, w3) = guarded_api_call env w2
             \<lparr>req_provider = GNews, req_query = alt_query, req_max = max_articles\<rparr>
             c2 max_api_calls
      in case r3 of
           Some articles \<Rightarrow> ((articles, c3), w3)
         | None \<Rightarrow>
     (let (r4, c4, w4) = guarded_api_call env w3
             \<lparr>req_provider = NewsAPI, req_query = alt_query, req_max = max_articles\<rparr>
             c3 max_api_calls
      in case r4 of
           Some articles \<Rightarrow> ((map converted_article articles, c4), w4)
         | None \<Rightarrow> (([], c4), w4))))))"

section \<open>Article fetching and the claim loop (\<^verbatim>\<open>fact_check.py\<close>)\<close>

definition is_domain_blocked :: "env \<Rightarrow> string \<Rightarrow> bool" where
  "is_domain_blocked env url = (netloc env url \<in> set [''ndtv.com''])"

text \<open>
  \<^verbatim>\<open>fetch_full_article_content\<close>: \<^term>\<open>None\<close> for a blocked domain (no request), for a
  failed request and for a page with no text.
\<close>

definition fetch_full_article_content :: "env \<Rightarrow> world \<Rightarrow> string \<Rightarrow> string option \<times> world" where
  "fetch_full_article_content env w url =
     (if is_domain_blocked env url then (None, w)
      else (let w' = w\<lparr>fetch_log := fetch_log w @ [url]\<rparr>
            in case http_get env w url of
                 None \<Rightarrow> (None, w')
               | Some html \<Rightarrow>
                   (let content = extract_content env html
                    in if content \<noteq> [] then (Some content, w') else (None, w'))))"

text \<open>\<^verbatim>\<open>count_tokens\<close>: the tokenizer, or \<^verbatim>\<open>len(text) // 4\<close> when it raises.\<close>

definition count_tokens :: "env \<Rightarrow> string \<Rightarrow> int" where
  "count_tokens env text =
     (case tiktoken_len env text of
        Some n \<Rightarrow> int n
      | None \<Rightarrow> int (length text) div 4)"

text \<open>Python's truth value of an optional string.\<close>

definition truthy :: "string option \<Rightarrow> bool" where
  "truthy x = (case x of None \<Rightarrow> False | Some s \<Rightarrow> s \<noteq> [])"

text \<open>The loop over the articles of one claim (lines 288 to 301).\<close>

fun article_loop ::
  "env \<Rightarrow> article list \<Rightarrow> claim_result \<times> world \<Rightarrow> claim_result \<times> world" where
  "article_loop env [] st = st"
| "article_loop env (article # rest) (claim_result, w) =
     (let (full_content, w') = fetch_full_article_content env w (a_url article);
          article_data =
            \<lparr>d_title = a_title article, d_description = a_description article,
             d_url = a_url article, d_source = a_source_name article,
             d_publishedAt = a_publishedAt article, d_content = full_content,
             d_content_tokens =
               (if truthy full_content then count_tokens env (the full_content) else 0)\<rparr>;
          claim_result =
            (if truthy full_content
             then claim_result\<lparr>r_total_tokens :=
                    r_total_tokens claim_result + d_content_tokens article_data\<rparr>
             else claim_result)
      in article_loop env rest
           (claim_result\<lparr>r_articles := r_articles claim_result @ [article_data]\<rparr>, w'))"

text \<open>The base result object of a claim (lines 246 to 261).\<close>

definition base_result :: "claim \<Rightarrow> bool \<Rightarrow> claim_result" where
  "base_result claim_data needs_external_verification =
     \<lparr>r_claim = c_claim claim_data,
      r_original_claim = c_original_claim claim_data,
      r_search_query = c_search_query claim_data,
      r_category = c_category claim_data,
      r_verification_status = c_verification_status claim_data,
      r_confidence = c_confidence claim_data,
      r_explanation = c_explanation claim_data,
      r_fact_check_notes = c_fact_check_notes claim_data,
      r_potential_impact = c_potential_impact claim_data,
      r_source_url = c_source_url claim_data,
      r_post_number = c_post_number claim_data,
      r_articles = [],
      r_total_tokens = 0,
      r_needs_external_verification = needs_external_verification,
      r_verification_result = None,
      r_historical_evidence = None\<rparr>"

text \<open>
  The external branch of the loop body once the budget check has passed (lines 274 to
  305): the result record, the new counter and the new world.
\<close>

definition verify_externally ::
  "env \<Rightarrow> int \<Rightarrow> claim \<Rightarrow> claim_result \<Rightarrow> int \<times> world \<Rightarrow> claim_result \<times> int \<times> world" where
  "verify_externally env max_api_calls claim_data claim_result st =
     (let (api_call_count, w) = st;
          search_query = c_search_query claim_data;
          search_query = (if search_query = [] then c_claim claim_data else search_query)
      in if search_query \<noteq> [] then
           (let ((articles, api_call_count), w) =
                  fetch_news_articles env w search_query api_call_count max_api_calls 10
            in if articles \<noteq> [] then
                 (let (claim_result, w) = article_loop env articles (claim_result, w)
                  in (claim_result\<lparr>r_verification_result :=
                        Some (if r_total_tokens claim_result > 0
                              then ''content_found'' else ''no_content_found'')\<rparr>,
                      api_call_count, w))
               else (claim_result\<lparr>r_verification_result := Some ''no_articles_found''\<rparr>,
                     api_call_count, w))
         else (claim_result, api_call_count, w))"

text \<open>
  The loop of \<^verbatim>\<open>process_claims\<close> over the claims, on the counter, the result list and
  the world. The \<^verbatim>\<open>break\<close> of line 272 ends the loop with the state as it is.
\<close>

fun claims_loop ::
  "env \<Rightarrow> int \<Rightarrow> claim list \<Rightarrow> int \<times> claim_result list \<times> world
     \<Rightarrow> int \<times> claim_result list \<times> world" where
  "claims_loop env max_api_calls [] st = st"
| "claims_loop env max_api_calls (claim_data # rest) (api_call_count, verified_claims, w) =
     (let needs_external_verification =
            (case c_needs_external_verification claim_data of None \<Rightarrow> True | Some b \<Rightarrow> b);
          claim_result = base_result claim_data needs_external_verification
      in if \<not> needs_external_verification then
           claims_loop env max_api_calls rest
             (api_call_count,
              verified_claims @
                [claim_result\<lparr>r_verification_result := Some ''verified_by_knowledge'',
                              r_historical_evidence := Some (c_historical_evidence claim_data)\<rparr>],
              w)
         else if api_call_count \<ge> max_api_calls then (api_call_count, verified_claims, w)
         else
           (let (claim_result, api_call_count, w) =
                  verify_externally env max_api_calls claim_data claim_result (api_call_count, w)
            in claims_loop env max_api_calls rest
                 (api_call_count, verified_claims @ [claim_result], w)))"

text \<open>\<^verbatim>\<open>process_claims\<close>: the counter starts at zero; the result is the list of records.\<close>

definition process_claims :: "env \<Rightarrow> world \<Rightarrow> claim list \<Rightarrow> int \<Rightarrow> claim_result list \<times> world" where
  "process_claims env w json_data max_api_calls =
     (let (api_call_count, verified_claims, w') =
            claims_loop env max_api_calls json_data (0, [], w)
      in (verified_claims, w'))"

section \<open>The provider pool (\<^verbatim>\<open>main4.py\<close>)\<close>

definition MAX_API_CALLS :: int where
  "MAX_API_CALLS = 5"

text \<open>The module's globals: the call counter and the two availability flags.\<close>

record api_state =
  api_call_count :: int
  gnews_available :: bool
  newsapi_available :: bool

definition can_make_api_call :: "api_state \<Rightarrow> bool" where
  "can_make_api_call s = (api_call_count s < MAX_API_CALLS)"

definition increment_api_call :: "api_state \<Rightarrow> api_state" where
  "increment_api_call s = s\<lparr>api_call_count := api_call_count s + 1\<rparr>"

text \<open>\<^verbatim>\<open>get_available_api\<close>; \<^term>\<open>None\<close> is the answer \<^verbatim>\<open>"none"\<close>.\<close>

definition get_available_api :: "api_state \<Rightarrow> provider option" where
  "get_available_api s =
     (if gnews_available s then Some GNews
      else if newsapi_available s then Some NewsAPI
      else None)"

fun mark_api_unavailable :: "provider \<Rightarrow> api_state \<Rightarrow> api_state" where
  "mark_api_unavailable GNews s = s\<lparr>gnews_available := False\<rparr>"
| "mark_api_unavailable NewsAPI s = s\<lparr>newsapi_available := False\<rparr>"

text \<open>An article as \<^verbatim>\<open>search_single_api\<close> returns it, tagged with the provider used.\<close>

record tagged_article = article +
  api_used :: provider

definition tagged :: "provider \<Rightarrow> article \<Rightarrow> tagged_article" where
  "tagged p article =
     \<lparr>a_title = a_title article, a_description = a_description article,
      a_url = a_url article, a_source_name = a_source_name article,
      a_publishedAt = a_publishedAt article, a_content = a_content article,
      api_used = p\<rparr>"

text \<open>
  \<^verbatim>\<open>search_single_api\<close>, on the globals and the world. The counter is incremented
  before the request; a 429 or 403 and an exception mark the provider unavailable and,
  when the other provider is available and the counter is below the ceiling, the function
  calls itself.
\<close>

function search_single_api ::
  "env \<Rightarrow> api_state \<times> world \<Rightarrow> string \<Rightarrow> int
     \<Rightarrow> (tagged_article list \<times> provider option) \<times> api_state \<times> world" where
  "search_single_api env (s, w) query max_results =
     (if \<not> can_make_api_call s then (([], None), s, w)
      else case get_available_api s of
        None \<Rightarrow> (([], None), s, w)
      | Some GNews \<Rightarrow>
          (let s1 = increment_api_call s;
               req = \<lparr>req_provider = GNews, req_query = query, req_max = max_results\<rparr>;
               w1 = w\<lparr>search_log := search_log w @ [req]\<rparr>
           in case http_search env w req of
                Response status_code data_articles \<Rightarrow>
                  if status_code = 200
                  then ((map (tagged GNews) data_articles, Some GNews), s1, w1)
                  else if status_code \<in> set [429, 403] then
                    (let s2 = mark_api_unavailable GNews s1
                     in if newsapi_available s2 \<and> can_make_api_call s2
                        then search_single_api env (s2, w1) query max_results
                        else (([], Some GNews), s2, w1))
                  else (([], Some GNews), s1, w1)
              | RequestException \<Rightarrow>
                  (let s2 = mark_api_unavailable GNews s1
                   in if newsapi_available s2 \<and> can_make_api_call s2
                      then search_single_api env (s2, w1) query max_results
                      else (([], Some GNews), s2, w1)))
      | Some NewsAPI \<Rightarrow>
          (let s1 = increment_api_call s;
               req = \<lparr>req_provider = NewsAPI, req_query = query, req_max = max_results\<rparr>;
               w1 = w\<lparr>search_log := search_log w @ [req]\<rparr>
           in case http_search env w req of
                Response status_code data_articles \<Rightarrow>
                  if status_code = 200
                  then ((map (tagged NewsAPI) data_articles, Some NewsAPI), s1, w1)
                  else if status_code \<in> set [429, 403] then
                    (let s2 = mark_api_unavailable NewsAPI s1
                     in if gnews_available s2 \<and> can_make_api_call s2
                        then search_single_api env (s2, w1) query max_results
                        else (([], Some NewsAPI), s2, w1))
                  else (([], Some NewsAPI), s1, w1)
              | RequestException \<Rightarrow>
                  (let s2 = mark_api_unavailable NewsAPI s1
                   in if gnews_available s2 \<and> can_make_api_call s2
                      then search_single_api env (s2, w1) query max_results
                      else (([], Some NewsAPI), s2, w1))))"
  by pat_completeness auto
termination
  by (relation "measure (\<lambda>(env, (s, w), query, max_results).
         (if gnews_available s then 1 else 0) + (if newsapi_available s then 1 else 0))")
     (auto simp: get_available_api_def increment_api_call_def split: if_splits)

declare search_single_api.simps [simp del]

section \<open>The classifier of \<^verbatim>\<open>main5.py\<close>\<close>

definition MAX_TOKENS :: int where
  "MAX_TOKENS = 8192"

definition SYSTEM_OVERHEAD :: int where
  "SYSTEM_OVERHEAD = 100"

definition MAX_RESPONSE_TOKENS :: int where
  "MAX_RESPONSE_TOKENS = 2000"

definition CLAIM_OVERHEAD :: int where
  "CLAIM_OVERHEAD = 100"

definition AVAILABLE_FOR_ARTICLES :: int where
  "AVAILABLE_FOR_ARTICLES = MAX_TOKENS - SYSTEM_OVERHEAD - MAX_RESPONSE_TOKENS - CLAIM_OVERHEAD"

definition SYSTEM_PROMPT :: string where
  "SYSTEM_PROMPT =
     ''You are a fact-checking assistant. Analyze the claim against the provided ''
     @ ''articles and determine if it'' @ [CHR 0x27] @ ''s TRUE or FALSE.''
     @ newline @ newline
     @ ''Think through your reasoning step by step, then provide your final classification.''"

text \<open>\<^verbatim>\<open>truncate_text_to_tokens\<close> of \<^verbatim>\<open>main5.py\<close>: the tokenizer, or four characters
  per token when it raises.\<close>

definition truncate_text_to_tokens_tiktoken :: "env \<Rightarrow> string \<Rightarrow> int \<Rightarrow> string" where
  "truncate_text_to_tokens_tiktoken env text max_tokens =
     (case tiktoken_truncate env text max_tokens of
        Some truncated \<Rightarrow> truncated
      | None \<Rightarrow> slice_to text (max_tokens * 4))"

text \<open>
  The loop of \<^verbatim>\<open>extract_article_content\<close> over the articles of a result record, from
  article number \<open>i\<close> (counted from zero) with the remaining token budget; it returns
  the concatenation of the parts.
\<close>

fun article_parts :: "env \<Rightarrow> nat \<Rightarrow> article_data list \<Rightarrow> int \<Rightarrow> string" where
  "article_parts env i [] remaining_tokens = []"
| "article_parts env i (article # rest) remaining_tokens =
     (if remaining_tokens \<le> 50 then []
      else
        (let article_content =
               (if truthy (d_content article) then the (d_content article)
                else d_description article);
             title = d_title article;
             source = d_source article;
             article_text =
               newline @ ''--- Article '' @ str_of_nat (i + 1) @ '' ---'' @ newline
               @ ''Source: '' @ source @ newline
               @ ''Title: '' @ title @ newline
               @ ''Content: '' @ article_content @ newline;
             article_tokens = count_tokens env article_text
         in if article_tokens \<le> remaining_tokens
            then article_text @ article_parts env (i + 1) rest (remaining_tokens - article_tokens)
            else truncate_text_to_tokens_tiktoken env article_text remaining_tokens))"

definition extract_article_content :: "env \<Rightarrow> article_data list \<Rightarrow> int \<Rightarrow> string" where
  "extract_article_content env articles max_tokens =
     (if articles = [] then ''No articles available.''
      else article_parts env 0 articles max_tokens)"

text \<open>
  \<^verbatim>\<open>classify_claim_with_llm\<close>. The chat completion is the one call to the model; it is
  logged with its two messages.
\<close>

definition classify_claim_with_llm ::
  "env \<Rightarrow> world \<Rightarrow> string \<Rightarrow> string \<Rightarrow> article_data list \<Rightarrow> llm_classification \<times> world" where
  "classify_claim_with_llm env w claim explanation articles =
     (if articles = [] then
        (\<lparr>l_label = ''UNVERIFIABLE'',
          l_llm_response = ''No articles available for verification.'',
          l_reasoning = ''Cannot verify without source articles.''\<rparr>, w)
      else
        (let article_content = extract_article_content env articles AVAILABLE_FOR_ARTICLES;
             user_message =
               ''CLAIM TO VERIFY: '' @ claim @ newline @ newline
               @ ''REFERENCE ARTICLES:'' @ newline
               @ article_content @ newline @ newline
               @ ''Analyze whether this claim is TRUE or FALSE based on the articles ''
               @ ''provided. Think through your reasoning carefully.'';
             w' = w\<lparr>model_log := model_log w @ [Llama_chat SYSTEM_PROMPT user_message]\<rparr>
         in case llm_chat env w SYSTEM_PROMPT user_message of
              Chunks fragments \<Rightarrow>
                (let full_response = concat fragments
                 in (\<lparr>l_label = extract_classification full_response,
                      l_llm_response = full_response,
                      l_reasoning = full_response\<rparr>, w'))
            | LlmException e \<Rightarrow>
                (\<lparr>l_label = ''ERROR'',
                  l_llm_response = ''Error: '' @ e,
                  l_reasoning = ''''\<rparr>, w')))"

text \<open>The loop of \<^verbatim>\<open>process_claims_with_llm\<close>; a record with no claim text is skipped.\<close>

fun classification_loop ::
  "env \<Rightarrow> claim_result list \<Rightarrow> classification_entry list \<times> world
     \<Rightarrow> classification_entry list \<times> world" where
  "classification_loop env [] st = st"
| "classification_loop env (claim_data # rest) (acc, w) =
     (let claim = r_claim claim_data;
          explanation = r_explanation claim_data;
          articles = r_articles claim_data
      in if claim = [] then classification_loop env rest (acc, w)
         else
           (let (classification, w') = classify_claim_with_llm env w claim explanation articles;
                result =
                  \<lparr>e_claim = claim,
                   e_original_claim = r_original_claim claim_data,
                   e_search_query = r_search_query claim_data,
                   e_category = r_category claim_data,
                   e_classification = l_label classification,
                   e_reasoning = l_reasoning classification,
                   e_full_response = l_llm_response classification,
                   e_articles_count = length articles,
                   e_articles_used =
                     map (\<lambda>art. (d_title art, d_source art, d_url art)) (take 5 articles)\<rparr>
            in classification_loop env rest (acc @ [result], w')))"

text \<open>A call either returns a value or raises.\<close>

datatype 'a outcome = Returned 'a | Raised string

text \<open>
  \<^verbatim>\<open>process_claims_with_llm\<close>, on the loaded document. A model that does not load gives
  \<^verbatim>\<open>{}\<close> (\<^term>\<open>None\<close>); a document that is a list has no \<^verbatim>\<open>get\<close>, and one without the
  key \<^verbatim>\<open>verified_claims\<close> has no claims.
\<close>

definition process_claims_with_llm ::
  "env \<Rightarrow> world \<Rightarrow> file_content \<Rightarrow> string
     \<Rightarrow> classification_results option outcome \<times> world" where
  "process_claims_with_llm env w data model_path =
     (if \<not> model_loads env w model_path then (Returned None, w)
      else case data of
        Claims_file cs \<Rightarrow> (Raised ''AttributeError'', w)
      | Results_file claims \<Rightarrow>
          (let (entries, w') = classification_loop env claims ([], w)
           in (Returned (Some \<lparr>cr_model_used = model_path, cr_max_tokens = MAX_TOKENS,
                 cr_max_response_tokens = MAX_RESPONSE_TOKENS,
                 cr_classifications = entries\<rparr>), w'))
      | _ \<Rightarrow>
          (Returned (Some \<lparr>cr_model_used = model_path, cr_max_tokens = MAX_TOKENS,
             cr_max_response_tokens = MAX_RESPONSE_TOKENS, cr_classifications = []\<rparr>), w))"

section \<open>The classifier of \<^verbatim>\<open>main6.py\<close>\<close>

definition PROMPT_TOKENS :: int where
  "PROMPT_TOKENS = 300"

definition CLAIM_EXPLANATION_TOKENS :: int where
  "CLAIM_EXPLANATION_TOKENS = 200"

definition RESPONSE_TOKENS :: int where
  "RESPONSE_TOKENS = 1000"

definition ARTICLE_TOKENS :: int where
  "ARTICLE_TOKENS = MAX_TOKENS - PROMPT_TOKENS - CLAIM_EXPLANATION_TOKENS - RESPONSE_TOKENS"

text \<open>\<^verbatim>\<open>CLASSIFICATION_PROMPT.format(claim=claim, articles=articles)\<close>.\<close>

definition CLASSIFICATION_PROMPT :: "string \<Rightarrow> string \<Rightarrow> string" where
  \<open>CLASSIFICATION_PROMPT claim articles =
     newline
     @ ''IMPORTANT: You are a fact-checking AI assistant. Your task is to analyze a claim ''
     @ ''and determine if it is TRUE or FALSE.'' @ newline @ newline
     @ ''CRITICAL INSTRUCTIONS:'' @ newline
     @ ''1. First verify if the articles themselves are reliable sources'' @ newline
     @ ''2. Check if the articles contain factual information or misinformation'' @ newline
     @ ''3. Only use the articles as evidence if they appear to be from reliable sources''
     @ newline
     @ ''4. If the articles seem to contain misinformation or are from unreliable sources, ''
     @ ''classify the claim as "UNVERIFIABLE"'' @ newline @ newline
     @ ''CLAIM TO VERIFY: '' @ claim @ newline @ newline
     @ ''ARTICLES FOR REFERENCE:'' @ newline
     @ articles @ newline @ newline
     @ ''INSTRUCTIONS:'' @ newline
     @ ''1. Read the claim carefully'' @ newline
     @ ''2. Review the articles for evidence and reliability'' @ newline
     @ ''3. Decide if the claim is supported (TRUE), contradicted (FALSE), or if the ''
     @ ''articles are unreliable (UNVERIFIABLE)'' @ newline
     @ ''4. Provide your answer in this EXACT format:'' @ newline
     @ ''   LABEL: [TRUE, FALSE, or UNVERIFIABLE]'' @ newline
     @ ''   EXPLANATION: [2-3 sentences explaining your decision]'' @ newline @ newline
     @ ''YOUR RESPONSE (must follow the exact format above):'' @ newline\<close>

text \<open>
  The loop of \<^verbatim>\<open>extract_article_content\<close> of \<^verbatim>\<open>main6.py\<close>, with the text collected so
  far. The articles of a result record have no \<^verbatim>\<open>published_date\<close> and no \<^verbatim>\<open>body\<close>.
\<close>

fun gemini_article_loop :: "nat \<Rightarrow> article_data list \<Rightarrow> string \<times> int \<Rightarrow> string" where
  "gemini_article_loop i [] (content, remaining_tokens) = content"
| "gemini_article_loop i (article # rest) (content, remaining_tokens) =
     (if remaining_tokens \<le> 0 then content
      else
        (let article_parts =
               [newline @ newline @ ''Article '' @ str_of_nat (i + 1) @ '':'',
                ''Title: '' @ d_title article,
                ''Source: '' @ d_source article,
                ''Published Date: '',
                ''URL: '' @ d_url article,
                ''Summary: '' @ d_description article]
               @ (if truthy (d_content article)
                  then [''Content: '' @ the (d_content article)] else []);
             article_text = py_join newline article_parts;
             article_tokens = count_tokens_chars article_text
         in if article_tokens \<le> remaining_tokens
            then gemini_article_loop (i + 1) rest
                   (content @ article_text, remaining_tokens - article_tokens)
            else gemini_article_loop (i + 1) rest
                   (content @ truncate_text_to_tokens article_text remaining_tokens, 0)))"

definition gemini_extract_article_content :: "article_data list \<Rightarrow> int \<Rightarrow> string" where
  "gemini_extract_article_content articles max_tokens =
     (if articles = [] then ''No articles available for comparison.''
      else gemini_article_loop 0 articles ([], max_tokens))"

definition ensure_token_limit :: "string \<Rightarrow> int \<Rightarrow> string" where
  "ensure_token_limit prompt max_tokens =
     (if count_tokens_chars prompt \<le> max_tokens then prompt
      else truncate_text_to_tokens prompt max_tokens)"

text \<open>\<^verbatim>\<open>hay.find(needle)\<close>; \<^term>\<open>None\<close> is the answer \<^verbatim>\<open>-1\<close>.\<close>

fun py_find :: "string \<Rightarrow> string \<Rightarrow> nat option" where
  "py_find needle [] = (if needle = [] then Some 0 else None)"
| "py_find needle (c # cs) =
     (if prefix needle (c # cs) then Some 0 else map_option Suc (py_find needle cs))"

text \<open>The explanation part of the extraction (lines 354 to 359).\<close>

definition gemini_explanation :: "string \<Rightarrow> string" where
  "gemini_explanation result_text =
     (case py_find ''EXPLANATION:'' (upper result_text) of
        None \<Rightarrow> ''''
      | Some i \<Rightarrow>
          (let explanation_start = i + length ''EXPLANATION:'';
               tail = drop explanation_start result_text
           in case py_find (newline @ newline) tail of
                None \<Rightarrow> strip tail
              | Some j \<Rightarrow> strip (take j tail)))"

text \<open>
  \<^verbatim>\<open>classify_claim_with_gemini\<close>. The first call is not streamed; an exception in it
  leads to a second, streamed call. Both are logged.
\<close>

definition classify_claim_with_gemini ::
  "env \<Rightarrow> world \<Rightarrow> string \<Rightarrow> string \<Rightarrow> article_data list
     \<Rightarrow> gemini_classification \<times> world" where
  "classify_claim_with_gemini env w claim explanation articles =
     (if articles = [] then
        (\<lparr>g_label = ''unverifiable'',
          g_explanation = ''No articles available to verify this claim.'',
          g_full_response = ''No articles available for comparison.'',
          g_tokens_used = None\<rparr>, w)
      else
        (let article_content = gemini_extract_article_content articles ARTICLE_TOKENS;
             article_tokens = count_tokens_chars article_content;
             formatted_prompt = CLASSIFICATION_PROMPT claim article_content;
             formatted_prompt = ensure_token_limit formatted_prompt (MAX_TOKENS - RESPONSE_TOKENS);
             total_tokens = count_tokens_chars formatted_prompt;
             w1 = w\<lparr>model_log := model_log w @ [Gemini_generate formatted_prompt False]\<rparr>;
             w2 = w1\<lparr>model_log := model_log w1 @ [Gemini_generate formatted_prompt True]\<rparr>;
             extracted = (\<lambda>result_text.
               \<lparr>g_label = gemini_label result_text,
                g_explanation = gemini_explanation result_text,
                g_full_response = result_text,
                g_tokens_used = Some (article_tokens, total_tokens)\<rparr>)
         in case gemini_generate env w formatted_prompt of
              GSafety \<Rightarrow>
                (\<lparr>g_label = ''error'',
                  g_explanation = ''Response was blocked due to safety concerns. This may ''
                    @ ''be due to sensitive content in the claim or articles.'',
                  g_full_response = ''Response blocked by safety filters.'',
                  g_tokens_used = None\<rparr>, w1)
            | GValueError e \<Rightarrow>
                (\<lparr>g_label = ''error'',
                  g_explanation = ''Error accessing response text: '' @ e,
                  g_full_response = '''',
                  g_tokens_used = None\<rparr>, w1)
            | GText result_text \<Rightarrow> (extracted result_text, w1)
            | GException e \<Rightarrow>
                (case gemini_stream env w1 formatted_prompt of
                   GChunks fragments \<Rightarrow> (extracted (concat fragments), w2)
                 | GStreamException e2 \<Rightarrow>
                     (\<lparr>g_label = ''error'',
                       g_explanation = ''Error generating response: '' @ e
                         @ ''; Streaming error: '' @ e2,
                       g_full_response = '''',
                       g_tokens_used = None\<rparr>, w2))))"

section \<open>The drivers\<close>

text \<open>\<^verbatim>\<open>os.path.exists\<close>.\<close>

definition path_exists :: "world \<Rightarrow> string \<Rightarrow> bool" where
  "path_exists w path = (files w path \<noteq> None)"

text \<open>
  \<^verbatim>\<open>save_results_to_file\<close>: \<^term>\<open>True\<close> and the file written, or \<^term>\<open>False\<close> when an
  exception is caught.
\<close>

definition save_results_to_file :: "env \<Rightarrow> world \<Rightarrow> file_content \<Rightarrow> string \<Rightarrow> bool \<times> world" where
  "save_results_to_file env w results filename =
     (if can_write env w filename
      then (True, w\<lparr>files := (files w)(filename \<mapsto> results)\<rparr>)
      else (False, w))"

text \<open>
  \<^verbatim>\<open>print_results\<close> of \<^verbatim>\<open>fact_check.py\<close> reads \<^verbatim>\<open>claim_data['verification_result']\<close> of
  every record: a record without the key raises \<^verbatim>\<open>KeyError\<close>.
\<close>

definition print_results :: "claim_result list \<Rightarrow> unit outcome" where
  "print_results verified_claims =
     (if list_ex (\<lambda>claim_data. r_verification_result claim_data = None) verified_claims
      then Raised ''KeyError'' else Returned ())"

text \<open>
  \<^verbatim>\<open>run_fact_checking_process\<close>. \<^verbatim>\<open>load_json_data\<close> gives \<^verbatim>\<open>[]\<close> for a file that is
  not JSON; a document that is not a list of claims makes \<^verbatim>\<open>process_claims\<close> raise at
  its first \<^verbatim>\<open>claim_data.get\<close>.
\<close>

definition run_fact_checking_process ::
  "env \<Rightarrow> world \<Rightarrow> string \<Rightarrow> string \<Rightarrow> int \<Rightarrow> string option outcome \<times> world" where
  "run_fact_checking_process env w json_file_path results_filename max_api_calls =
     (if path_exists w results_filename then (Returned (Some results_filename), w)
      else if \<not> path_exists w json_file_path then (Returned None, w)
      else case the (files w json_file_path) of
        Other_file \<Rightarrow> (Returned None, w)
      | Classification_file None \<Rightarrow> (Returned None, w)
      | Classification_file (Some d) \<Rightarrow> (Raised ''AttributeError'', w)
      | Results_file d \<Rightarrow> (Raised ''AttributeError'', w)
      | Claims_file json_data \<Rightarrow>
          if json_data = [] then (Returned None, w)
          else
            (let (results, w1) = process_claims env w json_data max_api_calls;
                 (saved, w2) = save_results_to_file env w1 (Results_file results) results_filename
             in if saved then
                  (case print_results results of
                     Raised e \<Rightarrow> (Raised e, w2)
                   | Returned u \<Rightarrow> (Returned (Some results_filename), w2))
                else (Returned None, w2)))"

text \<open>
  \<^verbatim>\<open>run_llm_classification_process\<close> of \<^verbatim>\<open>main5.py\<close>. The loaded document is falsy
  when it is \<^verbatim>\<open>{}\<close> or \<^verbatim>\<open>[]\<close>.
\<close>

definition run_llm_classification_process ::
  "env \<Rightarrow> world \<Rightarrow> string \<Rightarrow> string \<Rightarrow> string \<Rightarrow> string option outcome \<times> world" where
  "run_llm_classification_process env w input_file_path model_path output_file_path =
     (if path_exists w output_file_path then (Returned (Some output_file_path), w)
      else if \<not> path_exists w input_file_path then (Returned None, w)
      else if \<not> path_exists w model_path then (Returned None, w)
      else
        (let results_data = the (files w input_file_path)
         in if results_data = Other_file \<or> results_data = Classification_file None
               \<or> results_data = Claims_file []
            then (Returned None, w)
            else case process_claims_with_llm env w results_data model_path of
              (Raised e, w1) \<Rightarrow> (Raised e, w1)
            | (Returned classification_results, w1) \<Rightarrow>
                (let (saved, w2) = save_results_to_file env w1
                       (Classification_file classification_results) output_file_path
                 in if saved then (Returned (Some output_file_path), w2)
                    else (Returned None, w2))))"

section \<open>Observations and sample inputs\<close>

text \<open>
  \<open>searched w w' n\<close>: from \<open>w\<close> to \<open>w'\<close> exactly \<open>n\<close> search requests were made (they are
  the new end of the search log), no model was called and no file was written.
\<close>

definition searched :: "world \<Rightarrow> world \<Rightarrow> int \<Rightarrow> bool" where
  "searched w w' n =
     (prefix (search_log w) (search_log w')
      \<and> int (length (search_log w')) - int (length (search_log w)) = n
      \<and> model_log w' = model_log w \<and> files w' = files w)"

text \<open>The default of \<^verbatim>\<open>claim_data.get("needs_external_verification", True)\<close>.\<close>

definition needs_external :: "claim \<Rightarrow> bool" where
  "needs_external claim_data =
     (case c_needs_external_verification claim_data of None \<Rightarrow> True | Some b \<Rightarrow> b)"

text \<open>The text \<^verbatim>\<open>process_claims\<close> searches for: the query, or the claim when it is empty.\<close>

definition query_of :: "claim \<Rightarrow> string" where
  "query_of claim_data =
     (if c_search_query claim_data = [] then c_claim claim_data else c_search_query claim_data)"

text \<open>
  \<open>record_of c r\<close>: \<open>r\<close> is a result record of the claim \<open>c\<close>: it copies the claim's
  fields; a claim on the knowledge path carries \<^verbatim>\<open>verified_by_knowledge\<close>, no article
  and no token; a claim on the external path with something to search for carries one of
  the three outcomes of the search.
\<close>

definition record_of :: "claim \<Rightarrow> claim_result \<Rightarrow> bool" where
  "record_of c r =
     (r_claim r = c_claim c \<and> r_search_query r = c_search_query c
      \<and> r_needs_external_verification r = needs_external c
      \<and> (if \<not> needs_external c
          then r_verification_result r = Some ''verified_by_knowledge''
               \<and> r_articles r = [] \<and> r_total_tokens r = 0
          else if query_of c = [] then r_verification_result r = None
          else r_verification_result r \<in>
                 set [Some ''content_found'', Some ''no_content_found'',
                      Some ''no_articles_found'']))"

text \<open>An environment with a given search backend and nothing else of interest.\<close>

definition env_with :: "(world \<Rightarrow> request \<Rightarrow> http_result) \<Rightarrow> env" where
  "env_with search =
     \<lparr>http_search = search,
      http_get = (\<lambda>w u. None),
      netloc = (\<lambda>u. u),
      extract_content = (\<lambda>html. html),
      tiktoken_len = (\<lambda>t. None),
      tiktoken_truncate = (\<lambda>t n. None),
      llm_chat = (\<lambda>w s u. Chunks [''TRUE'']),
      model_loads = (\<lambda>w p. True),
      can_write = (\<lambda>w p. True),
      gemini_generate = (\<lambda>w p. GText ''LABEL: TRUE''),
      gemini_stream = (\<lambda>w p. GChunks [])\<rparr>"

text \<open>Total failure of the search backends, and a backend that finds nothing.\<close>

definition env_down :: env where
  "env_down = env_with (\<lambda>w req. RequestException)"

definition env_nothing :: env where
  "env_nothing = env_with (\<lambda>w req. Response 200 [])"

definition sample_article :: article where
  "sample_article =
     \<lparr>a_title = ''t'', a_description = ''d'', a_url = ''u'', a_source_name = ''s'',
      a_publishedAt = ''p'', a_content = ''c''\<rparr>"

text \<open>GNews answers 429, NewsAPI answers 200 with one article.\<close>

definition env_quota :: env where
  "env_quota = env_with (\<lambda>w req.
     case req_provider req of GNews \<Rightarrow> Response 429 [] | NewsAPI \<Rightarrow> Response 200 [sample_article])"

definition world0 :: world where
  "world0 = \<lparr>search_log = [], fetch_log = [], model_log = [], files = Map.empty\<rparr>"

definition sample_claim :: "string \<Rightarrow> string \<Rightarrow> bool option \<Rightarrow> claim" where
  "sample_claim text query needs =
     \<lparr>c_claim = text, c_original_claim = text, c_search_query = query,
      c_category = ''health'', c_verification_status = '''', c_confidence = '''',
      c_explanation = '''', c_fact_check_notes = '''', c_potential_impact = '''',
      c_source_url = '''', c_post_number = ''1'',
      c_needs_external_verification = needs, c_historical_evidence = ''known''\<rparr>"

definition sample_article_data :: article_data where
  "sample_article_data =
     \<lparr>d_title = ''t'', d_description = ''d'', d_url = ''u'', d_source = ''s'',
      d_publishedAt = ''p'', d_content = Some ''text'', d_content_tokens = 1\<rparr>"

definition state0 :: api_state where
  "state0 = \<lparr>api_call_count = 0, gnews_available = True, newsapi_available = True\<rparr>"

text \<open>Total failure of the search backends: every call ends in a hard failure.\<close>

definition search_down :: "env \<Rightarrow> bool" where
  "search_down env = (\<forall>w req. fst (make_api_call env w req) = None)"

text \<open>
  \<open>outcome_ok env c r\<close>: \<open>r\<close> is a result record of \<open>c\<close>, and when the backends are down
  an external claim carries \<^verbatim>\<open>no_articles_found\<close> or nothing.
\<close>

definition outcome_ok :: "env \<Rightarrow> claim \<Rightarrow> claim_result \<Rightarrow> bool" where
  "outcome_ok env c r =
     (record_of c r
      \<and> (if search_down env \<and> needs_external c
          then r_verification_result r = None
               \<or> r_verification_result r = Some ''no_articles_found''
          else True))"


chapter \<open>Properties\<close>

section \<open>String primitives\<close>

lemma py_in_iff: "py_in n h \<longleftrightarrow> (\<exists>ps ss. h = ps @ n @ ss)"
proof (induction h)
  case Nil
  then show ?case by auto
next
  case (Cons c cs)
  show ?case
  proof
    assume "py_in n (c # cs)"
    then consider "prefix n (c # cs)" | "py_in n cs" by auto
    then show "\<exists>ps ss. c # cs = ps @ n @ ss"
    proof cases
      case 1
      then obtain ss where "c # cs = n @ ss" by (auto simp: prefix_def)
      then have "c # cs = [] @ n @ ss" by simp
      then show ?thesis by blast
    next
      case 2
      then obtain ps ss where "cs = ps @ n @ ss" using Cons.IH by blast
      then have "c # cs = (c # ps) @ n @ ss" by simp
      then show ?thesis by blast
    qed
  next
    assume "\<exists>ps ss. c # cs = ps @ n @ ss"
    then obtain ps ss where e: "c # cs = ps @ n @ ss" by blast
    show "py_in n (c # cs)"
    proof (cases ps)
      case Nil
      with e have "prefix n (c # cs)" by (simp add: prefix_def)
      then show ?thesis by simp
    next
      case (Cons p ps')
      with e have "cs = ps' @ n @ ss" by simp
      then have "py_in n cs" using Cons.IH by blast
      then show ?thesis by simp
    qed
  qed
qed

lemma py_in_middle: "py_in n (a @ (p @ n @ q) @ b)"
proof -
  have "a @ (p @ n @ q) @ b = (a @ p) @ n @ (q @ b)" by simp
  then show ?thesis using py_in_iff by blast
qed

lemma lower_upper_char: "lower_char (upper_char c) = lower_char c"
  by (auto simp: lower_char_def upper_char_def ascii_lowercase_def ascii_uppercase_def
      split: option.splits if_splits)

lemma lower_upper: "lower (upper s) = lower s"
  by (simp add: lower_def upper_def lower_upper_char)

lemma upper_append: "upper (a @ b) = upper a @ upper b"
  by (simp add: upper_def)

lemma lower_append: "lower (a @ b) = lower a @ lower b"
  by (simp add: lower_def)

lemmas case_maps = upper_def lower_def upper_char_def lower_char_def
  ascii_lowercase_def ascii_uppercase_def

lemma rsplit_space_head_prefix: "prefix (rsplit_space_head s) s"
proof (cases "CHR '' '' \<in> set s")
  case False
  then show ?thesis by (simp add: rsplit_space_head_def)
next
  case True
  let ?P = "\<lambda>c. c \<noteq> CHR '' ''"
  let ?d = "dropWhile ?P (rev s)"
  from True have "?d \<noteq> []" by (simp add: dropWhile_eq_Nil_conv)
  then have d: "?d = hd ?d # tl ?d" by simp
  have "rev s = takeWhile ?P (rev s) @ ?d" by simp
  then have "s = rev ?d @ rev (takeWhile ?P (rev s))"
    by (metis rev_append rev_rev_ident)
  also have "rev ?d = rev (tl ?d) @ [hd ?d]" using d by (metis rev.simps(2))
  finally have "s = rev (tl ?d) @ ([hd ?d] @ rev (takeWhile ?P (rev s)))" by simp
  then have "prefix (rev (tl ?d)) s" by (metis prefixI)
  with True show ?thesis by (simp add: rsplit_space_head_def)
qed

lemma slice_to_prefix: "prefix (slice_to t k) t"
  by (simp add: slice_to_def take_is_prefix)

lemma slice_to_length: "0 \<le> k \<Longrightarrow> int (length (slice_to t k)) \<le> k"
  by (simp add: slice_to_def)

section \<open>Token budget\<close>

lemma truncate_to_idem:
  "0 \<le> n \<Longrightarrow>
   truncate_text_to_tokens (truncate_text_to_tokens t n) n = truncate_text_to_tokens t n"
  by (auto simp: truncate_text_to_tokens_def slice_to_def Let_def)

lemma truncate_to_prefix: "prefix (truncate_text_to_tokens t n) t"
  by (simp add: truncate_text_to_tokens_def Let_def slice_to_prefix)

lemma truncate_to_count:
  "0 \<le> n \<Longrightarrow> count_tokens_chars (truncate_text_to_tokens t n) \<le> n"
  by (auto simp: truncate_text_to_tokens_def count_tokens_chars_def slice_to_def Let_def)

lemma truncate_for_short:
  "int (length t) \<le> 4 * n \<Longrightarrow> truncate_text_for_tokens t n = t"
  by (simp add: truncate_text_for_tokens_def Let_def mult.commute)

lemma truncate_for_long:
  assumes "0 \<le> n" and "4 * n < int (length t)"
  shows "\<exists>p. prefix p t \<and> int (length p) \<le> 4 * n
             \<and> truncate_text_for_tokens t n = p @ ''...''"
proof -
  let ?s = "slice_to t (n * 4)"
  let ?p = "rsplit_space_head ?s"
  have ps: "prefix ?p ?s" by (rule rsplit_space_head_prefix)
  then have "prefix ?p t" using slice_to_prefix prefix_order.trans by blast
  moreover have "length ?p \<le> length ?s" using ps by (rule prefix_length_le)
  then have "int (length ?p) \<le> 4 * n"
    using slice_to_length [of "n * 4" t] assms(1) by simp
  moreover have "truncate_text_for_tokens t n = ?p @ ''...''"
    using assms(2) by (simp add: truncate_text_for_tokens_def Let_def mult.commute)
  ultimately show ?thesis by blast
qed

text \<open>
  Claim C5, as amended. \<^verbatim>\<open>main6.py\<close>'s \<^verbatim>\<open>truncate_text_to_tokens\<close> meets the stated
  contract for every text and every budget \<open>n \<ge> 0\<close>: it is idempotent, it returns a
  prefix of the text, the estimated token count of the result (\<^verbatim>\<open>len // 4\<close>) is at most
  \<open>n\<close>, and the empty text stays empty. \<^verbatim>\<open>main4.py\<close>'s \<^verbatim>\<open>truncate_text_for_tokens\<close>
  returns a text of at most \<open>4 n\<close> characters unchanged (so the empty text stays empty),
  and otherwise a prefix of the text of at most \<open>4 n\<close> characters followed by an
  ellipsis; that result is in general neither a prefix nor a fixed point.
\<close>

theorem truncation_contract:
  "0 \<le> n \<Longrightarrow>
     truncate_text_to_tokens (truncate_text_to_tokens t n) n = truncate_text_to_tokens t n
   \<and> prefix (truncate_text_to_tokens t n) t
   \<and> count_tokens_chars (truncate_text_to_tokens t n) \<le> n
   \<and> truncate_text_to_tokens '''' n = ''''
   \<and> truncate_text_for_tokens '''' n = ''''
   \<and> (int (length t) \<le> 4 * n \<longrightarrow> truncate_text_for_tokens t n = t)
   \<and> (4 * n < int (length t) \<longrightarrow>
        (\<exists>p. prefix p t \<and> int (length p) \<le> 4 * n
            \<and> truncate_text_for_tokens t n = p @ ''...''))"
proof -
  assume n: "0 \<le> n"
  have e6: "truncate_text_to_tokens '''' n = ''''"
    using n by (simp add: truncate_text_to_tokens_def)
  have e4: "truncate_text_for_tokens '''' n = ''''"
    using n by (simp add: truncate_for_short)
  show ?thesis
    using n truncate_to_idem truncate_to_prefix truncate_to_count e6 e4
      truncate_for_short truncate_for_long
    by blast
qed

theorem truncation_contract_witness:
  "(0::int) \<le> 1
   \<and> truncate_text_to_tokens (truncate_text_to_tokens ''ab cdefgh'' 1) 1 = ''ab c''
   \<and> prefix (truncate_text_to_tokens ''ab cdefgh'' 1) ''ab cdefgh''
   \<and> count_tokens_chars (truncate_text_to_tokens ''ab cdefgh'' 1) \<le> 1
   \<and> int (length ''abc'') \<le> 4 * 1 \<and> truncate_text_for_tokens ''abc'' 1 = ''abc''
   \<and> 4 * 1 < int (length ''ab cdefgh'')
   \<and> (\<exists>p. prefix p ''ab cdefgh'' \<and> int (length p) \<le> 4 * 1
          \<and> truncate_text_for_tokens ''ab cdefgh'' 1 = p @ ''...'')"
proof -
  have a: "truncate_text_to_tokens ''ab cdefgh'' 1 = ''ab c''"
    by (simp add: truncate_text_to_tokens_def slice_to_def)
  show ?thesis
    using truncation_contract [of 1 "''ab cdefgh''"] truncation_contract [of 1 "''abc''"] a
    by simp
qed

text \<open>
  Claim C5 as stated fails on \<^verbatim>\<open>main4.py\<close>'s truncation: on \<^verbatim>\<open>"ab cdefgh"\<close> with budget 1
  it yields \<^verbatim>\<open>"ab..."\<close>, which is not a prefix of the text, and truncating that again
  yields \<^verbatim>\<open>"ab....."\<close>.
\<close>

theorem truncation_counterexample:
  "truncate_text_for_tokens ''ab cdefgh'' 1 = ''ab...''
   \<and> \<not> prefix (truncate_text_for_tokens ''ab cdefgh'' 1) ''ab cdefgh''
   \<and> truncate_text_for_tokens (truncate_text_for_tokens ''ab cdefgh'' 1) 1 = ''ab.....''
   \<and> truncate_text_for_tokens (truncate_text_for_tokens ''ab cdefgh'' 1) 1
       \<noteq> truncate_text_for_tokens ''ab cdefgh'' 1"
  by (simp add: truncate_text_for_tokens_def slice_to_def rsplit_space_head_def)

section \<open>Label extraction\<close>

lemma LABEL_FALSE_lower: "lower ''LABEL: FALSE'' = ''label: false''"
  by (simp add: case_maps)

lemma spelling_lower:
  assumes "upper v = ''LABEL: FALSE''"
  shows "lower v = ''label: false''"
proof -
  have "lower v = lower (upper v)" by (simp add: lower_upper)
  then show ?thesis using assms LABEL_FALSE_lower by simp
qed

lemma gemini_label_false:
  assumes "upper v = ''LABEL: FALSE''"
    and "\<not> py_in ''LABEL: TRUE'' (upper (a @ v @ b))"
  shows "gemini_label (a @ v @ b) = ''false''"
proof -
  have "upper (a @ v @ b) = upper a @ ([] @ ''LABEL: FALSE'' @ []) @ upper b"
    using assms(1) by (simp add: upper_append)
  then have "py_in ''LABEL: FALSE'' (upper (a @ v @ b))"
    using py_in_middle by metis
  with assms(2) show ?thesis by (simp add: gemini_label_def)
qed

lemma false_in_lower:
  assumes "upper v = ''LABEL: FALSE''"
  shows "py_in ''false'' (lower (a @ v @ b))"
proof -
  have "lower (a @ v @ b) = lower a @ (''label: '' @ ''false'' @ []) @ lower b"
    using spelling_lower [OF assms] by (simp add: lower_append)
  then show ?thesis using py_in_middle by metis
qed

lemma extract_classification_false:
  assumes "upper v = ''LABEL: FALSE''"
  shows "extract_classification (a @ v @ b) =
           (if py_in ''not false'' (lower (a @ v @ b))
               \<or> py_in (isnt @ '' false'') (lower (a @ v @ b))
            then ''TRUE'' else ''FALSE'')"
  using false_in_lower [OF assms, of a b] by (simp add: extract_classification_def Let_def)

text \<open>
  The phrases \<^verbatim>\<open>extract_classification\<close> looks for; a response with none of them falls
  through every branch.
\<close>

lemma extract_classification_default:
  assumes "\<forall>p \<in> set [''false'', ''true'', ''claim is correct'', ''claim is accurate'',
             ''claim is incorrect'', ''claim is inaccurate'', ''claim is wrong'',
             ''no evidence'', ''cannot be verified'']. \<not> py_in p (lower r)"
  shows "extract_classification r = ''UNVERIFIABLE''"
  using assms by (simp add: extract_classification_def Let_def)

text \<open>
  Claim C3, as amended. \<^verbatim>\<open>main6.py\<close> searches the upper-cased response for
  \<^verbatim>\<open>LABEL: TRUE\<close>, \<^verbatim>\<open>LABEL: FALSE\<close>, \<^verbatim>\<open>LABEL: UNVERIFIABLE\<close> in that priority order and
  returns \<^verbatim>\<open>true\<close>, \<^verbatim>\<open>false\<close> or \<^verbatim>\<open>unverifiable\<close> for the first one present: a
  response with \<^verbatim>\<open>LABEL: FALSE\<close> in any casing, anywhere, yields \<^verbatim>\<open>false\<close> provided it
  has no \<^verbatim>\<open>LABEL: TRUE\<close>, and a response with none of the three patterns yields
  \<^verbatim>\<open>unknown\<close>. \<^verbatim>\<open>main5.py\<close>'s \<^verbatim>\<open>extract_classification\<close> has no label pattern; a
  response with \<^verbatim>\<open>LABEL: FALSE\<close> in any casing yields \<^verbatim>\<open>FALSE\<close> unless it contains
  \<^verbatim>\<open>not false\<close> or \<^verbatim>\<open>isn't false\<close>, when it yields \<^verbatim>\<open>TRUE\<close>; a response with none of
  the phrases of its heuristics yields \<^verbatim>\<open>UNVERIFIABLE\<close>.
\<close>

theorem label_extraction_rules:
  "(py_in ''LABEL: TRUE'' (upper r) \<longrightarrow> gemini_label r = ''true'')
   \<and> (upper v = ''LABEL: FALSE'' \<and> \<not> py_in ''LABEL: TRUE'' (upper (a @ v @ b))
        \<longrightarrow> gemini_label (a @ v @ b) = ''false'')
   \<and> (\<not> py_in ''LABEL: TRUE'' (upper r) \<and> \<not> py_in ''LABEL: FALSE'' (upper r)
        \<and> py_in ''LABEL: UNVERIFIABLE'' (upper r) \<longrightarrow> gemini_label r = ''unverifiable'')
   \<and> (\<not> py_in ''LABEL: TRUE'' (upper r) \<and> \<not> py_in ''LABEL: FALSE'' (upper r)
        \<and> \<not> py_in ''LABEL: UNVERIFIABLE'' (upper r) \<longrightarrow> gemini_label r = ''unknown'')
   \<and> (upper v = ''LABEL: FALSE'' \<longrightarrow>
        extract_classification (a @ v @ b) =
          (if py_in ''not false'' (lower (a @ v @ b))
              \<or> py_in (isnt @ '' false'') (lower (a @ v @ b))
           then ''TRUE'' else ''FALSE''))
   \<and> ((\<forall>p \<in> set [''false'', ''true'', ''claim is correct'', ''claim is accurate'',
             ''claim is incorrect'', ''claim is inaccurate'', ''claim is wrong'',
             ''no evidence'', ''cannot be verified'']. \<not> py_in p (lower r))
        \<longrightarrow> extract_classification r = ''UNVERIFIABLE'')"
proof -
  have g: "py_in ''LABEL: TRUE'' (upper r) \<longrightarrow> gemini_label r = ''true''"
    "\<not> py_in ''LABEL: TRUE'' (upper r) \<and> \<not> py_in ''LABEL: FALSE'' (upper r)
        \<and> py_in ''LABEL: UNVERIFIABLE'' (upper r) \<longrightarrow> gemini_label r = ''unverifiable''"
    "\<not> py_in ''LABEL: TRUE'' (upper r) \<and> \<not> py_in ''LABEL: FALSE'' (upper r)
        \<and> \<not> py_in ''LABEL: UNVERIFIABLE'' (upper r) \<longrightarrow> gemini_label r = ''unknown''"
    by (simp_all add: gemini_label_def)
  show ?thesis
    using g gemini_label_false [of v a b] extract_classification_false [of v a b]
      extract_classification_default [of r]
    by blast
qed

theorem label_extraction_rules_witness:
  "gemini_label ''Label: True'' = ''true''
   \<and> gemini_label (''so: '' @ ''Label: False'' @ ''.'') = ''false''
   \<and> gemini_label ''label: unverifiable'' = ''unverifiable''
   \<and> gemini_label ''no verdict'' = ''unknown''
   \<and> extract_classification (''so: '' @ ''Label: False'' @ ''.'') = ''FALSE''
   \<and> extract_classification ''no verdict'' = ''UNVERIFIABLE''"
proof -
  have u: "upper ''Label: False'' = ''LABEL: FALSE''" by (simp add: case_maps)
  have h1: "py_in ''LABEL: TRUE'' (upper ''Label: True'')" by (simp add: case_maps)
  have h2: "\<not> py_in ''LABEL: TRUE'' (upper (''so: '' @ ''Label: False'' @ ''.''))"
    by (simp add: case_maps)
  have h3: "\<not> py_in ''LABEL: TRUE'' (upper ''label: unverifiable'')
            \<and> \<not> py_in ''LABEL: FALSE'' (upper ''label: unverifiable'')
            \<and> py_in ''LABEL: UNVERIFIABLE'' (upper ''label: unverifiable'')"
    by (simp add: case_maps)
  have h4: "\<not> py_in ''LABEL: TRUE'' (upper ''no verdict'')
            \<and> \<not> py_in ''LABEL: FALSE'' (upper ''no verdict'')
            \<and> \<not> py_in ''LABEL: UNVERIFIABLE'' (upper ''no verdict'')"
    by (simp add: case_maps)
  have h5: "\<not> (py_in ''not false'' (lower (''so: '' @ ''Label: False'' @ ''.''))
              \<or> py_in (isnt @ '' false'') (lower (''so: '' @ ''Label: False'' @ ''.'')))"
    by (simp add: case_maps isnt_def)
  have h6: "\<forall>p \<in> set [''false'', ''true'', ''claim is correct'', ''claim is accurate'',
             ''claim is incorrect'', ''claim is inaccurate'', ''claim is wrong'',
             ''no evidence'', ''cannot be verified'']. \<not> py_in p (lower ''no verdict'')"
    by (simp add: case_maps)
  show ?thesis
    using label_extraction_rules [of "''Label: True''" "''Label: False''" "''so: ''" "''.''"]
      label_extraction_rules [of "''label: unverifiable''" "''Label: False''" "''so: ''" "''.''"]
      label_extraction_rules [of "''no verdict''" "''Label: False''" "''so: ''" "''.''"]
      u h1 h2 h3 h4 h5 h6
    by presburger
qed

text \<open>
  Claim C3 as stated fails on both extractors: in \<^verbatim>\<open>main6.py\<close> a response that holds
  \<^verbatim>\<open>LABEL: FALSE\<close> and, later, \<^verbatim>\<open>LABEL: TRUE\<close> is labelled \<^verbatim>\<open>true\<close>, and a response
  with no pattern is labelled \<^verbatim>\<open>unknown\<close>; in \<^verbatim>\<open>main5.py\<close> a response that holds
  \<^verbatim>\<open>LABEL: FALSE\<close> and the words \<^verbatim>\<open>not false\<close> is labelled \<^verbatim>\<open>TRUE\<close>.
\<close>

theorem label_extraction_counterexample:
  "py_in ''LABEL: FALSE'' (upper ''LABEL: FALSE, not LABEL: TRUE'')
   \<and> gemini_label ''LABEL: FALSE, not LABEL: TRUE'' = ''true''
   \<and> gemini_label ''no verdict'' = ''unknown''
   \<and> py_in ''LABEL: FALSE'' (upper ''LABEL: FALSE is not false'')
   \<and> extract_classification ''LABEL: FALSE is not false'' = ''TRUE''"
  by (simp add: gemini_label_def extract_classification_def case_maps isnt_def)


section \<open>Search requests and the call budget\<close>

lemma searched_refl: "searched w w 0"
  by (simp add: searched_def)

lemma searched_trans: "searched w w1 a \<Longrightarrow> searched w1 w2 b \<Longrightarrow> searched w w2 (a + b)"
  by (auto simp: searched_def)

lemma make_api_call_world:
  "snd (make_api_call env w req) = w\<lparr>search_log := search_log w @ [req]\<rparr>"
  by (simp add: make_api_call_def Let_def split: http_result.splits)

lemma guarded_api_call_inv:
  assumes "guarded_api_call env w req c N = (r, c', w')"
  shows "c \<le> c' \<and> c' \<le> max c N \<and> searched w w' (c' - c)"
proof (cases "c < N")
  case True
  obtain a wa where m: "make_api_call env w req = (a, wa)" by (cases "make_api_call env w req")
  then have "wa = w\<lparr>search_log := search_log w @ [req]\<rparr>"
    using make_api_call_world [of env w req] by simp
  then have "searched w wa 1" by (simp add: searched_def)
  with True m assms show ?thesis by (auto simp: guarded_api_call_def)
next
  case False
  with assms show ?thesis by (auto simp: guarded_api_call_def searched_refl)
qed

lemma fetch_news_articles_inv:
  assumes "fetch_news_articles env w q c N m = ((arts, c'), w')"
  shows "c \<le> c' \<and> c' \<le> max c N \<and> searched w w' (c' - c)"
proof -
  let ?s = "sanitize_search_query q"
  let ?a = "generate_alternative_query q"
  obtain r1 c1 w1 where g1: "guarded_api_call env w \<lparr>req_provider = GNews, req_query = ?s, req_max = m\<rparr> c N = (r1, c1, w1)"
    by (metis prod_cases3)
  obtain r2 c2 w2 where g2: "guarded_api_call env w1 \<lparr>req_provider = NewsAPI, req_query = ?s, req_max = m\<rparr> c1 N = (r2, c2, w2)"
    by (metis prod_cases3)
  obtain r3 c3 w3 where g3: "guarded_api_call env w2 \<lparr>req_provider = GNews, req_query = ?a, req_max = m\<rparr> c2 N = (r3, c3, w3)"
    by (metis prod_cases3)
  obtain r4 c4 w4 where g4: "guarded_api_call env w3 \<lparr>req_provider = NewsAPI, req_query = ?a, req_max = m\<rparr> c3 N = (r4, c4, w4)"
    by (metis prod_cases3)
  note i1 = guarded_api_call_inv [OF g1]
  note i2 = guarded_api_call_inv [OF g2]
  note i3 = guarded_api_call_inv [OF g3]
  note i4 = guarded_api_call_inv [OF g4]
  have t2: "searched w w2 (c2 - c)" using searched_trans [of w w1 "c1 - c" w2 "c2 - c1"] i1 i2 by simp
  have t3: "searched w w3 (c3 - c)" using searched_trans [OF t2, of w3 "c3 - c2"] i3 by simp
  have t4: "searched w w4 (c4 - c)" using searched_trans [OF t3, of w4 "c4 - c3"] i4 by simp
  have "(c', w') \<in> {(c1, w1), (c2, w2), (c3, w3), (c4, w4)}"
    using assms g1 g2 g3 g4
    by (auto simp: fetch_news_articles_def Let_def split: option.splits if_splits)
  then show ?thesis using i1 i2 i3 i4 t2 t3 t4 by auto
qed

lemma fetch_full_article_content_searched:
  "searched w (snd (fetch_full_article_content env w u)) 0"
  by (simp add: fetch_full_article_content_def Let_def searched_def split: option.splits)

lemma article_loop_searched:
  "article_loop env arts (r, w) = (r', w') \<Longrightarrow> searched w w' 0"
proof (induction arts arbitrary: r w)
  case Nil
  then show ?case by (simp add: searched_refl)
next
  case (Cons a arts)
  obtain fc w1 where f: "fetch_full_article_content env w (a_url a) = (fc, w1)"
    by (cases "fetch_full_article_content env w (a_url a)")
  then have s1: "searched w w1 0" using fetch_full_article_content_searched [of w env "a_url a"] by simp
  from Cons.prems f obtain r1 where "article_loop env arts (r1, w1) = (r', w')"
    by (simp add: Let_def)
  then have "searched w1 w' 0" by (rule Cons.IH)
  with s1 show ?case using searched_trans by fastforce
qed

lemma article_loop_fields:
  "article_loop env arts (r, w) = (r', w') \<Longrightarrow>
     r_claim r' = r_claim r \<and> r_search_query r' = r_search_query r
     \<and> r_needs_external_verification r' = r_needs_external_verification r"
proof (induction arts arbitrary: r w)
  case Nil
  then show ?case by simp
next
  case (Cons a arts)
  obtain fc w1 where f: "fetch_full_article_content env w (a_url a) = (fc, w1)"
    by (cases "fetch_full_article_content env w (a_url a)")
  from Cons.prems f obtain r1 where a: "article_loop env arts (r1, w1) = (r', w')"
    and "r_claim r1 = r_claim r \<and> r_search_query r1 = r_search_query r
     \<and> r_needs_external_verification r1 = r_needs_external_verification r"
    by (simp add: Let_def split: if_splits)
  then show ?case using Cons.IH [OF a] by simp
qed

lemma verify_externally_inv:
  assumes "verify_externally env N cd r (c, w) = (r', c', w')"
  shows "c \<le> c' \<and> c' \<le> max c N \<and> searched w w' (c' - c)"
proof (cases "query_of cd = []")
  case True
  with assms show ?thesis
    by (auto simp: verify_externally_def query_of_def Let_def searched_refl split: if_splits)
next
  case False
  obtain arts c1 w1 where f: "fetch_news_articles env w (query_of cd) c N 10 = ((arts, c1), w1)"
    by (metis prod.exhaust)
  note i = fetch_news_articles_inv [OF f]
  show ?thesis
  proof (cases "arts = []")
    case True
    with assms f False have "c' = c1 \<and> w' = w1"
      by (auto simp: verify_externally_def query_of_def Let_def split: if_splits)
    with i show ?thesis by simp
  next
    case ne: False
    obtain r2 w2 where a: "article_loop env arts (r, w1) = (r2, w2)"
      by (cases "article_loop env arts (r, w1)")
    with assms f False ne have e: "c' = c1 \<and> w' = w2"
      by (auto simp: verify_externally_def query_of_def Let_def split: if_splits)
    have "searched w1 w2 0" using article_loop_searched [OF a] .
    then have "searched w w2 (c1 - c)" using i searched_trans by fastforce
    with i e show ?thesis by simp
  qed
qed

lemma claims_loop_inv:
  "claims_loop env N cs (c, acc, w) = (c', res, w') \<Longrightarrow>
     c \<le> c' \<and> c' \<le> max c N \<and> searched w w' (c' - c)"
proof (induction cs arbitrary: c acc w)
  case Nil
  then show ?case by (simp add: searched_refl)
next
  case (Cons cd cs)
  show ?case
  proof (cases "needs_external cd")
    case False
    with Cons.prems obtain acc1 where "claims_loop env N cs (c, acc1, w) = (c', res, w')"
      by (simp add: needs_external_def Let_def)
    then show ?thesis by (rule Cons.IH)
  next
    case True
    show ?thesis
    proof (cases "c \<ge> N")
      case True
      with Cons.prems \<open>needs_external cd\<close> show ?thesis
        by (simp add: needs_external_def Let_def searched_refl)
    next
      case False
      obtain r1 c1 w1 where v: "verify_externally env N cd (base_result cd True) (c, w) = (r1, c1, w1)"
        by (metis prod_cases3)
      note i = verify_externally_inv [OF v]
      from Cons.prems \<open>needs_external cd\<close> False v
      have "claims_loop env N cs (c1, acc @ [r1], w1) = (c', res, w')"
        by (simp add: needs_external_def Let_def)
      then have j: "c1 \<le> c' \<and> c' \<le> max c1 N \<and> searched w1 w' (c' - c1)" by (rule Cons.IH)
      have "searched w w' ((c1 - c) + (c' - c1))" using i j searched_trans by blast
      with i j show ?thesis by auto
    qed
  qed
qed

lemma process_claims_budget:
  assumes "process_claims env w cs N = (res, w')"
  shows "\<exists>n. searched w w' n \<and> 0 \<le> n \<and> n \<le> max 0 N"
proof -
  obtain c' where "claims_loop env N cs (0, [], w) = (c', res, w')"
    using assms by (auto simp: process_claims_def split: prod.splits)
  then have "0 \<le> c' \<and> c' \<le> max 0 N \<and> searched w w' (c' - 0)" by (rule claims_loop_inv)
  then show ?thesis by auto
qed

section \<open>The provider pool\<close>

lemma searched_one: "searched w (w\<lparr>search_log := search_log w @ [req]\<rparr>) 1"
  by (simp add: searched_def)

lemma search_at_ceiling:
  "\<not> can_make_api_call s \<Longrightarrow> search_single_api env (s, w) q m = (([], None), s, w)"
  by (simp add: search_single_api.simps)

lemma search_newsapi_only:
  assumes "\<not> gnews_available s"
    and "search_single_api env (s, w) q m = (res, s', w')"
  shows "api_call_count s \<le> api_call_count s'
     \<and> api_call_count s' \<le> api_call_count s + 1
     \<and> api_call_count s' \<le> max (api_call_count s) MAX_API_CALLS
     \<and> searched w w' (api_call_count s' - api_call_count s)
     \<and> \<not> gnews_available s'
     \<and> (\<not> newsapi_available s \<longrightarrow> \<not> newsapi_available s')"
  using assms searched_one [of w "\<lparr>req_provider = NewsAPI, req_query = q, req_max = m\<rparr>"]
  by (auto simp: search_single_api.simps [of env s w q m] get_available_api_def
      increment_api_call_def can_make_api_call_def Let_def searched_refl
      split: if_splits http_result.splits)

lemma search_gnews_failover:
  assumes g: "gnews_available s" and n: "newsapi_available s"
    and b: "api_call_count s + 1 < MAX_API_CALLS"
    and r: "http_search env w \<lparr>req_provider = GNews, req_query = q, req_max = m\<rparr> = Response st arts"
    and st: "st = 429 \<or> st = 403"
  shows "search_single_api env (s, w) q m =
           search_single_api env
             (s\<lparr>api_call_count := api_call_count s + 1, gnews_available := False\<rparr>,
              w\<lparr>search_log := search_log w @ [\<lparr>req_provider = GNews, req_query = q, req_max = m\<rparr>]\<rparr>) q m"
  using assms
  by (auto simp: search_single_api.simps [of env s w q m] get_available_api_def
      increment_api_call_def can_make_api_call_def Let_def)

lemma search_newsapi_attempt:
  assumes "\<not> gnews_available s" and "newsapi_available s" and "api_call_count s < MAX_API_CALLS"
    and "search_single_api env (s, w) q m = (res, s', w')"
  shows "api_call_count s' = api_call_count s + 1
     \<and> search_log w' = search_log w @ [\<lparr>req_provider = NewsAPI, req_query = q, req_max = m\<rparr>]
     \<and> \<not> gnews_available s'"
  using assms
  by (auto simp: search_single_api.simps [of env s w q m] get_available_api_def
      increment_api_call_def can_make_api_call_def Let_def
      split: if_splits http_result.splits)

lemma failover_two_units:
  assumes g: "gnews_available s" and n: "newsapi_available s"
    and b: "api_call_count s + 1 < MAX_API_CALLS"
    and r: "http_search env w \<lparr>req_provider = GNews, req_query = q, req_max = m\<rparr> = Response st arts"
    and st: "st = 429 \<or> st = 403"
    and res: "search_single_api env (s, w) q m = (res, s', w')"
  shows "api_call_count s' = api_call_count s + 2
     \<and> search_log w' = search_log w @ [\<lparr>req_provider = GNews, req_query = q, req_max = m\<rparr>,
                                        \<lparr>req_provider = NewsAPI, req_query = q, req_max = m\<rparr>]
     \<and> \<not> gnews_available s'"
proof -
  let ?s1 = "s\<lparr>api_call_count := api_call_count s + 1, gnews_available := False\<rparr>"
  let ?w1 = "w\<lparr>search_log := search_log w @ [\<lparr>req_provider = GNews, req_query = q, req_max = m\<rparr>]\<rparr>"
  have "search_single_api env (?s1, ?w1) q m = (res, s', w')"
    using search_gnews_failover [OF g n b r st] res by simp
  then have "api_call_count s' = api_call_count ?s1 + 1
     \<and> search_log w' = search_log ?w1 @ [\<lparr>req_provider = NewsAPI, req_query = q, req_max = m\<rparr>]
     \<and> \<not> gnews_available s'"
    using n b by (intro search_newsapi_attempt) auto
  then show ?thesis by simp
qed

lemma failover_no_budget:
  assumes g: "gnews_available s"
    and b: "api_call_count s + 1 = MAX_API_CALLS"
    and r: "http_search env w \<lparr>req_provider = GNews, req_query = q, req_max = m\<rparr> = Response st arts"
    and st: "st = 429 \<or> st = 403"
  shows "search_single_api env (s, w) q m =
           (([], Some GNews),
            s\<lparr>api_call_count := api_call_count s + 1, gnews_available := False\<rparr>,
            w\<lparr>search_log := search_log w @ [\<lparr>req_provider = GNews, req_query = q, req_max = m\<rparr>]\<rparr>)"
  using assms
  by (auto simp: search_single_api.simps [of env s w q m] get_available_api_def
      increment_api_call_def can_make_api_call_def Let_def)

lemma search_single_api_inv:
  assumes "search_single_api env (s, w) q m = (res, s', w')"
  shows "api_call_count s \<le> api_call_count s'
     \<and> api_call_count s' \<le> max (api_call_count s) MAX_API_CALLS
     \<and> searched w w' (api_call_count s' - api_call_count s)
     \<and> (\<not> gnews_available s \<longrightarrow> \<not> gnews_available s')
     \<and> (\<not> newsapi_available s \<longrightarrow> \<not> newsapi_available s')"
proof (cases "gnews_available s")
  case False
  then show ?thesis using search_newsapi_only [OF False assms] by auto
next
  case True
  let ?req = "\<lparr>req_provider = GNews, req_query = q, req_max = m\<rparr>"
  let ?s1 = "increment_api_call s"
  let ?s2 = "mark_api_unavailable GNews ?s1"
  let ?w1 = "w\<lparr>search_log := search_log w @ [?req]\<rparr>"
  show ?thesis
  proof (cases "search_single_api env (s, w) q m = search_single_api env (?s2, ?w1) q m
                 \<and> can_make_api_call s \<and> can_make_api_call ?s2")
    case rec: True
    then have e: "search_single_api env (?s2, ?w1) q m = (res, s', w')" using assms by simp
    have ng: "\<not> gnews_available ?s2" by (simp add: increment_api_call_def)
    note i = search_newsapi_only [OF ng e]
    have "searched w ?w1 1" by (rule searched_one)
    then have "searched w w' (1 + (api_call_count s' - api_call_count ?s2))"
      using i searched_trans by blast
    moreover have "api_call_count ?s2 = api_call_count s + 1" by (simp add: increment_api_call_def)
    moreover have "newsapi_available ?s2 = newsapi_available s" by (simp add: increment_api_call_def)
    ultimately show ?thesis using i rec by (auto simp: can_make_api_call_def)
  next
    case False
    then show ?thesis using assms True searched_one [of w ?req]
      by (auto simp: search_single_api.simps [of env s w q m] get_available_api_def
          increment_api_call_def can_make_api_call_def Let_def searched_refl
          split: if_splits http_result.splits)
  qed
qed

section \<open>The records of the claim loop\<close>

lemma guarded_search_down:
  assumes "search_down env"
  shows "fst (guarded_api_call env w req c N) = None"
proof -
  have "fst (make_api_call env w req) = None" using assms by (simp add: search_down_def)
  then show ?thesis
    by (cases "make_api_call env w req") (simp add: guarded_api_call_def)
qed

lemma fetch_news_articles_search_down:
  assumes "search_down env"
  shows "fst (fst (fetch_news_articles env w q c N m)) = []"
proof -
  have g: "\<And>w req c r c' w'. guarded_api_call env w req c N = (r, c', w') \<Longrightarrow> r = None"
    using guarded_search_down [OF assms] by (metis fst_conv)
  show ?thesis
    by (auto simp: fetch_news_articles_def Let_def dest: g split: prod.splits option.splits)
qed

lemma base_result_fields:
  "r_claim (base_result cd b) = c_claim cd \<and> r_search_query (base_result cd b) = c_search_query cd
   \<and> r_needs_external_verification (base_result cd b) = b
   \<and> r_verification_result (base_result cd b) = None
   \<and> r_articles (base_result cd b) = [] \<and> r_total_tokens (base_result cd b) = 0
   \<and> r_historical_evidence (base_result cd b) = None"
  by (simp add: base_result_def)

lemma verify_externally_record:
  assumes v: "verify_externally env N cd (base_result cd True) (c, w) = (r, c', w')"
    and n: "needs_external cd"
  shows "outcome_ok env cd r"
proof (cases "query_of cd = []")
  case True
  with v have "r = base_result cd True"
    by (auto simp: verify_externally_def query_of_def Let_def split: if_splits)
  with True n show ?thesis by (simp add: outcome_ok_def record_of_def base_result_fields)
next
  case False
  obtain arts c1 w1 where f: "fetch_news_articles env w (query_of cd) c N 10 = ((arts, c1), w1)"
    by (metis prod.exhaust)
  show ?thesis
  proof (cases "arts = []")
    case True
    with v f False have "r = (base_result cd True)\<lparr>r_verification_result := Some ''no_articles_found''\<rparr>"
      by (auto simp: verify_externally_def query_of_def Let_def split: if_splits)
    with False n show ?thesis by (simp add: outcome_ok_def record_of_def base_result_fields)
  next
    case ne: False
    have nd: "\<not> search_down env" using fetch_news_articles_search_down [of env w "query_of cd" c N 10] f ne by auto
    obtain r2 w2 where a: "article_loop env arts (base_result cd True, w1) = (r2, w2)"
      by (cases "article_loop env arts (base_result cd True, w1)")
    with v f False ne have e: "r = r2\<lparr>r_verification_result :=
         Some (if r_total_tokens r2 > 0 then ''content_found'' else ''no_content_found'')\<rparr>"
      by (auto simp: verify_externally_def query_of_def Let_def split: if_splits)
    note fl = article_loop_fields [OF a]
    show ?thesis using e fl False n nd
      by (simp add: outcome_ok_def record_of_def base_result_fields)
  qed
qed

lemma knowledge_record:
  assumes "\<not> needs_external cd"
  shows "outcome_ok env cd ((base_result cd False)\<lparr>r_verification_result := Some ''verified_by_knowledge'',
            r_historical_evidence := Some (c_historical_evidence cd)\<rparr>)"
  using assms by (simp add: outcome_ok_def record_of_def base_result_fields)

lemma claims_loop_records:
  "claims_loop env N cs (c, acc, w) = (c', res, w') \<Longrightarrow>
     \<exists>k new. k \<le> length cs \<and> res = acc @ new
        \<and> list_all2 (outcome_ok env) (take k cs) new
        \<and> (k < length cs \<longrightarrow> needs_external (cs ! k) \<and> N \<le> c')"
proof (induction cs arbitrary: c acc w)
  case Nil
  then show ?case by simp
next
  case (Cons cd cs)
  show ?case
  proof (cases "needs_external cd")
    case False
    let ?r = "(base_result cd False)\<lparr>r_verification_result := Some ''verified_by_knowledge'',
            r_historical_evidence := Some (c_historical_evidence cd)\<rparr>"
    from Cons.prems False have "claims_loop env N cs (c, acc @ [?r], w) = (c', res, w')"
      by (simp add: needs_external_def Let_def)
    from Cons.IH [OF this] obtain k new where
      k: "k \<le> length cs" "res = (acc @ [?r]) @ new" "list_all2 (outcome_ok env) (take k cs) new"
        "k < length cs \<longrightarrow> needs_external (cs ! k) \<and> N \<le> c'" by blast
    have "list_all2 (outcome_ok env) (take (Suc k) (cd # cs)) (?r # new)"
      using k(3) knowledge_record [OF False] by simp
    moreover have "res = acc @ (?r # new)" using k(2) by simp
    moreover have "Suc k \<le> length (cd # cs)" using k(1) by simp
    moreover have "Suc k < length (cd # cs) \<longrightarrow> needs_external ((cd # cs) ! Suc k) \<and> N \<le> c'"
      using k(4) by simp
    ultimately show ?thesis by blast
  next
    case True
    show ?thesis
    proof (cases "c \<ge> N")
      case ge: True
      with Cons.prems True have "c' = c \<and> res = acc"
        by (simp add: needs_external_def Let_def)
      then have "0 \<le> length (cd # cs) \<and> res = acc @ []
          \<and> list_all2 (outcome_ok env) (take 0 (cd # cs)) []
          \<and> (0 < length (cd # cs) \<longrightarrow> needs_external ((cd # cs) ! 0) \<and> N \<le> c')"
        using True ge by simp
      then show ?thesis by blast
    next
      case False
      obtain r1 c1 w1 where v: "verify_externally env N cd (base_result cd True) (c, w) = (r1, c1, w1)"
        by (metis prod_cases3)
      have ok: "outcome_ok env cd r1" using verify_externally_record [OF v True] .
      from Cons.prems True False v
      have "claims_loop env N cs (c1, acc @ [r1], w1) = (c', res, w')"
        by (simp add: needs_external_def Let_def)
      from Cons.IH [OF this] obtain k new where
        k: "k \<le> length cs" "res = (acc @ [r1]) @ new" "list_all2 (outcome_ok env) (take k cs) new"
          "k < length cs \<longrightarrow> needs_external (cs ! k) \<and> N \<le> c'" by blast
      have "list_all2 (outcome_ok env) (take (Suc k) (cd # cs)) (r1 # new)"
        using k(3) ok by simp
      moreover have "res = acc @ (r1 # new)" using k(2) by simp
      moreover have "Suc k \<le> length (cd # cs)" using k(1) by simp
      moreover have "Suc k < length (cd # cs) \<longrightarrow> needs_external ((cd # cs) ! Suc k) \<and> N \<le> c'"
        using k(4) by simp
      ultimately show ?thesis by blast
    qed
  qed
qed

section \<open>Budget exactness\<close>

lemma fetch_at_ceiling:
  "N \<le> c \<Longrightarrow> fetch_news_articles env w q c N m = (([], c), w)"
  by (simp add: fetch_news_articles_def guarded_api_call_def Let_def)

text \<open>
  Claim C1. One run of \<^verbatim>\<open>process_claims\<close> with ceiling \<open>N\<close> only appends to the log of
  search requests, and appends at most \<open>N\<close> of them (none for a negative ceiling): every
  attempt counts, at either provider and with either query. With the counter at the
  ceiling, \<^verbatim>\<open>fetch_news_articles\<close> returns no article, the counter and the world as
  they were; so does \<^verbatim>\<open>search_single_api\<close> of \<^verbatim>\<open>main4.py\<close>, whose counter never passes
  its ceiling either and grows by exactly the number of requests made.
\<close>

theorem budget_exactness:
  "(\<exists>n. searched w (snd (process_claims env w json_data N)) n \<and> 0 \<le> n \<and> n \<le> max 0 N)
   \<and> (N \<le> c \<longrightarrow> fetch_news_articles env w q c N m = (([], c), w))
   \<and> (MAX_API_CALLS \<le> api_call_count s \<longrightarrow>
        search_single_api env (s, w) q m = (([], None), s, w))
   \<and> (api_call_count s \<le> MAX_API_CALLS \<longrightarrow>
        api_call_count (fst (snd (search_single_api env (s, w) q m))) \<le> MAX_API_CALLS
        \<and> searched w (snd (snd (search_single_api env (s, w) q m)))
             (api_call_count (fst (snd (search_single_api env (s, w) q m))) - api_call_count s))"
proof -
  have a: "\<exists>n. searched w (snd (process_claims env w json_data N)) n \<and> 0 \<le> n \<and> n \<le> max 0 N"
    using process_claims_budget [of env w json_data N] by (metis prod.collapse)
  have b: "MAX_API_CALLS \<le> api_call_count s \<longrightarrow>
        search_single_api env (s, w) q m = (([], None), s, w)"
    using search_at_ceiling [of s env w q m] by (simp add: can_make_api_call_def)
  obtain res s' w' where e: "search_single_api env (s, w) q m = (res, s', w')"
    by (metis prod_cases3)
  have c: "api_call_count s \<le> MAX_API_CALLS \<longrightarrow>
        api_call_count (fst (snd (search_single_api env (s, w) q m))) \<le> MAX_API_CALLS
        \<and> searched w (snd (snd (search_single_api env (s, w) q m)))
             (api_call_count (fst (snd (search_single_api env (s, w) q m))) - api_call_count s)"
    using search_single_api_inv [OF e] e by auto
  show ?thesis using a b c fetch_at_ceiling by blast
qed

theorem budget_exactness_witness:
  "(\<exists>n. searched world0 (snd (process_claims env_down world0
            [sample_claim ''a'' ''a'' None, sample_claim ''b'' ''b'' None] 1)) n
        \<and> 0 \<le> n \<and> n \<le> max 0 1)
   \<and> (1::int) \<le> 1
   \<and> fetch_news_articles env_down world0 ''a'' 1 1 10 = (([], 1), world0)
   \<and> MAX_API_CALLS \<le> api_call_count (state0\<lparr>api_call_count := 5\<rparr>)
   \<and> search_single_api env_down (state0\<lparr>api_call_count := 5\<rparr>, world0) ''a'' 10
        = (([], None), state0\<lparr>api_call_count := 5\<rparr>, world0)
   \<and> api_call_count state0 \<le> MAX_API_CALLS
   \<and> api_call_count (fst (snd (search_single_api env_down (state0, world0) ''a'' 10)))
        \<le> MAX_API_CALLS"
proof -
  have h: "MAX_API_CALLS \<le> api_call_count (state0\<lparr>api_call_count := 5\<rparr>)"
    "api_call_count state0 \<le> MAX_API_CALLS"
    by (simp_all add: MAX_API_CALLS_def state0_def)
  show ?thesis
    using budget_exactness [of world0 env_down
        "[sample_claim ''a'' ''a'' None, sample_claim ''b'' ''b'' None]" 1 1 "''a''" 10
        "state0\<lparr>api_call_count := 5\<rparr>"]
      budget_exactness [of world0 env_down "[]" 1 1 "''a''" 10 state0] h
    by simp
qed

section \<open>An empty successful answer\<close>

lemma gnews_empty_success:
  assumes "c < N"
    and "http_search env w \<lparr>req_provider = GNews, req_query = sanitize_search_query q, req_max = m\<rparr>
           = Response 200 []"
  shows "fetch_news_articles env w q c N m =
           (([], c + 1),
            w\<lparr>search_log := search_log w @
                 [\<lparr>req_provider = GNews, req_query = sanitize_search_query q, req_max = m\<rparr>]\<rparr>)"
  using assms
  by (simp add: fetch_news_articles_def guarded_api_call_def make_api_call_def Let_def)

lemma newsapi_empty_success:
  assumes "c + 1 < N"
    and "fst (make_api_call env w
           \<lparr>req_provider = GNews, req_query = sanitize_search_query q, req_max = m\<rparr>) = None"
    and "http_search env
           (w\<lparr>search_log := search_log w @
                 [\<lparr>req_provider = GNews, req_query = sanitize_search_query q, req_max = m\<rparr>]\<rparr>)
           \<lparr>req_provider = NewsAPI, req_query = sanitize_search_query q, req_max = m\<rparr>
           = Response 200 []"
  shows "fetch_news_articles env w q c N m =
           (([], c + 2),
            w\<lparr>search_log := search_log w @
                 [\<lparr>req_provider = GNews, req_query = sanitize_search_query q, req_max = m\<rparr>,
                  \<lparr>req_provider = NewsAPI, req_query = sanitize_search_query q, req_max = m\<rparr>]\<rparr>)"
proof -
  let ?g = "\<lparr>req_provider = GNews, req_query = sanitize_search_query q, req_max = m\<rparr>"
  let ?n = "\<lparr>req_provider = NewsAPI, req_query = sanitize_search_query q, req_max = m\<rparr>"
  let ?w1 = "w\<lparr>search_log := search_log w @ [?g]\<rparr>"
  have m1: "make_api_call env w ?g = (None, ?w1)"
    using assms(2) make_api_call_world [of env w ?g] by (metis prod.collapse)
  have g1: "guarded_api_call env w ?g c N = (None, c + 1, ?w1)"
    using assms(1) m1 by (simp add: guarded_api_call_def)
  have m2: "make_api_call env ?w1 ?n = (Some [], ?w1\<lparr>search_log := search_log ?w1 @ [?n]\<rparr>)"
    using assms(3) by (simp add: make_api_call_def Let_def)
  have g2: "guarded_api_call env ?w1 ?n (c + 1) N =
              (Some [], c + 2, ?w1\<lparr>search_log := search_log ?w1 @ [?n]\<rparr>)"
    using assms(1) m2 by (simp add: guarded_api_call_def)
  show ?thesis by (simp add: fetch_news_articles_def Let_def g1 g2)
qed

lemma pool_empty_success:
  assumes "can_make_api_call s" and "gnews_available s"
    and "http_search env w \<lparr>req_provider = GNews, req_query = q, req_max = m\<rparr> = Response 200 []"
  shows "search_single_api env (s, w) q m =
           (([], Some GNews), increment_api_call s,
            w\<lparr>search_log := search_log w @
                 [\<lparr>req_provider = GNews, req_query = q, req_max = m\<rparr>]\<rparr>)"
  using assms
  by (simp add: search_single_api.simps [of env s w q m] get_available_api_def Let_def)

text \<open>
  Claim C7, as amended. A provider that answers 200 with an empty article list ends the
  search: \<^verbatim>\<open>fetch_news_articles\<close> returns the empty list at once, whether the answer
  comes from GNews or, after a hard failure of GNews, from NewsAPI, and
  \<^verbatim>\<open>search_single_api\<close> does the same. The counter has grown by one for each attempt
  made, the same provider is not tried again, and the next provider is not tried.
\<close>

theorem empty_success_ends_search:
  "(c < N \<and> http_search env w
        \<lparr>req_provider = GNews, req_query = sanitize_search_query q, req_max = m\<rparr> = Response 200 []
      \<longrightarrow> fetch_news_articles env w q c N m =
           (([], c + 1),
            w\<lparr>search_log := search_log w @
                 [\<lparr>req_provider = GNews, req_query = sanitize_search_query q, req_max = m\<rparr>]\<rparr>))
   \<and> (c + 1 < N
       \<and> fst (make_api_call env w
           \<lparr>req_provider = GNews, req_query = sanitize_search_query q, req_max = m\<rparr>) = None
       \<and> http_search env
           (w\<lparr>search_log := search_log w @
                 [\<lparr>req_provider = GNews, req_query = sanitize_search_query q, req_max = m\<rparr>]\<rparr>)
           \<lparr>req_provider = NewsAPI, req_query = sanitize_search_query q, req_max = m\<rparr>
           = Response 200 []
      \<longrightarrow> fetch_news_articles env w q c N m =
           (([], c + 2),
            w\<lparr>search_log := search_log w @
                 [\<lparr>req_provider = GNews, req_query = sanitize_search_query q, req_max = m\<rparr>,
                  \<lparr>req_provider = NewsAPI, req_query = sanitize_search_query q, req_max = m\<rparr>]\<rparr>))
   \<and> (can_make_api_call s \<and> gnews_available s
       \<and> http_search env w \<lparr>req_provider = GNews, req_query = q, req_max = m\<rparr> = Response 200 []
      \<longrightarrow> search_single_api env (s, w) q m =
           (([], Some GNews), increment_api_call s,
            w\<lparr>search_log := search_log w @
                 [\<lparr>req_provider = GNews, req_query = q, req_max = m\<rparr>]\<rparr>))"
  using gnews_empty_success [of c N env w q m] newsapi_empty_success [of c N env w q m]
    pool_empty_success [of s env w q m]
  by blast

lemma sanitize_vaccine: "sanitize_search_query ''vaccine'' = ''vaccine''"
  by code_simp

theorem empty_success_ends_search_witness:
  "fst (fetch_news_articles env_nothing world0 ''vaccine'' 0 2 10) = ([], 1)
   \<and> search_log (snd (fetch_news_articles env_nothing world0 ''vaccine'' 0 2 10)) =
        [\<lparr>req_provider = GNews, req_query = ''vaccine'', req_max = 10\<rparr>]
   \<and> fst (fetch_news_articles
        (env_with (\<lambda>w req. case req_provider req of GNews \<Rightarrow> Response 500 []
                                                  | NewsAPI \<Rightarrow> Response 200 []))
        world0 ''vaccine'' 0 2 10) = ([], 2)
   \<and> fst (search_single_api env_nothing (state0, world0) ''vaccine'' 10) = ([], Some GNews)"
proof -
  let ?e = "env_with (\<lambda>w req. case req_provider req of GNews \<Rightarrow> Response 500 []
                                                  | NewsAPI \<Rightarrow> Response 200 [])"
  have h1: "(0::int) < 2 \<and> http_search env_nothing world0
        \<lparr>req_provider = GNews, req_query = sanitize_search_query ''vaccine'', req_max = 10\<rparr>
        = Response 200 []"
    by (simp add: env_nothing_def env_with_def)
  have h2: "(0::int) + 1 < 2
       \<and> fst (make_api_call ?e world0
           \<lparr>req_provider = GNews, req_query = sanitize_search_query ''vaccine'', req_max = 10\<rparr>) = None
       \<and> http_search ?e
           (world0\<lparr>search_log := search_log world0 @
                 [\<lparr>req_provider = GNews, req_query = sanitize_search_query ''vaccine'', req_max = 10\<rparr>]\<rparr>)
           \<lparr>req_provider = NewsAPI, req_query = sanitize_search_query ''vaccine'', req_max = 10\<rparr>
           = Response 200 []"
    by (simp add: env_with_def make_api_call_def)
  have h3: "can_make_api_call state0 \<and> gnews_available state0
       \<and> http_search env_nothing world0 \<lparr>req_provider = GNews, req_query = ''vaccine'', req_max = 10\<rparr>
           = Response 200 []"
    by (simp add: env_nothing_def env_with_def can_make_api_call_def state0_def MAX_API_CALLS_def)
  show ?thesis
    using empty_success_ends_search [of 0 2 env_nothing world0 "''vaccine''" 10 state0]
      empty_success_ends_search [of 0 2 ?e world0 "''vaccine''" 10 state0] h1 h2 h3
    by (simp add: sanitize_vaccine world0_def)
qed

text \<open>
  Claim C7 as stated fails: GNews answers 200 with no article, nine calls remain in the
  budget, and the search log holds the one GNews request: NewsAPI was not tried. The same
  holds in \<^verbatim>\<open>search_single_api\<close>.
\<close>

theorem empty_success_counterexample:
  "http_search env_nothing world0 \<lparr>req_provider = GNews, req_query = ''vaccine'', req_max = 10\<rparr>
     = Response 200 []
   \<and> fst (fetch_news_articles env_nothing world0 ''vaccine'' 0 10 10) = ([], 1)
   \<and> (1::int) < 10
   \<and> search_log (snd (fetch_news_articles env_nothing world0 ''vaccine'' 0 10 10)) =
        [\<lparr>req_provider = GNews, req_query = ''vaccine'', req_max = 10\<rparr>]
   \<and> search_log (snd (snd (search_single_api env_nothing (state0, world0) ''vaccine'' 10))) =
        [\<lparr>req_provider = GNews, req_query = ''vaccine'', req_max = 10\<rparr>]"
  by code_simp

section \<open>Provider failover\<close>

lemma pool_stays_exhausted:
  "\<not> gnews_available s \<Longrightarrow> \<not> gnews_available (fst (snd (search_single_api env (s, w) q m)))"
proof -
  assume a: "\<not> gnews_available s"
  obtain res s' w' where e: "search_single_api env (s, w) q m = (res, s', w')"
    by (metis prod_cases3)
  from search_single_api_inv [OF e] a e show ?thesis by simp
qed

text \<open>In a run GNews is tried first, so NewsAPI is available whenever GNews is.\<close>

lemma pool_order_invariant:
  assumes "gnews_available s \<longrightarrow> newsapi_available s"
  shows "gnews_available (fst (snd (search_single_api env (s, w) q m)))
           \<longrightarrow> newsapi_available (fst (snd (search_single_api env (s, w) q m)))"
proof (cases "gnews_available s")
  case False
  then show ?thesis using pool_stays_exhausted by blast
next
  case True
  show ?thesis
  proof (cases "gnews_available (fst (snd (search_single_api env (s, w) q m)))")
    case False
    then show ?thesis by simp
  next
    case g: True
    have "\<not> gnews_available (mark_api_unavailable GNews (increment_api_call s))"
      by (simp add: increment_api_call_def)
    then have ng: "\<And>w1. \<not> gnews_available
        (fst (snd (search_single_api env (mark_api_unavailable GNews (increment_api_call s), w1) q m)))"
      using pool_stays_exhausted by blast
    show ?thesis using True assms g ng
      by (auto simp: search_single_api.simps [of env s w q m] get_available_api_def
          increment_api_call_def Let_def split: if_splits http_result.splits)
  qed
qed

text \<open>
  Claim C8. In a search call where GNews, the primary provider, answers 429 or 403 while
  NewsAPI is available and the budget admits a second attempt, GNews is marked
  unavailable, NewsAPI is tried in the same call with the same query, and the counter
  has grown by exactly two, one unit for each attempt. GNews stays unavailable in every
  later search call, whatever the backends answer.
\<close>

theorem provider_failover:
  assumes "gnews_available s" and "newsapi_available s"
    and "api_call_count s + 1 < MAX_API_CALLS"
    and "http_search env w \<lparr>req_provider = GNews, req_query = q, req_max = m\<rparr> = Response st arts"
    and "st = 429 \<or> st = 403"
  shows "api_call_count (fst (snd (search_single_api env (s, w) q m))) = api_call_count s + 2
     \<and> search_log (snd (snd (search_single_api env (s, w) q m))) =
         search_log w @ [\<lparr>req_provider = GNews, req_query = q, req_max = m\<rparr>,
                         \<lparr>req_provider = NewsAPI, req_query = q, req_max = m\<rparr>]
     \<and> \<not> gnews_available (fst (snd (search_single_api env (s, w) q m)))
     \<and> \<not> gnews_available (fst (snd (search_single_api env'
            (fst (snd (search_single_api env (s, w) q m)), w2) q2 m2)))"
proof -
  obtain res s' w' where e: "search_single_api env (s, w) q m = (res, s', w')"
    by (metis prod_cases3)
  note f = failover_two_units [OF assms e]
  then have "\<not> gnews_available s'" by simp
  then have "\<not> gnews_available (fst (snd (search_single_api env' (s', w2) q2 m2)))"
    by (rule pool_stays_exhausted)
  with f e show ?thesis by simp
qed

theorem provider_failover_witness:
  "gnews_available state0 \<and> newsapi_available state0
   \<and> api_call_count state0 + 1 < MAX_API_CALLS
   \<and> http_search env_quota world0 \<lparr>req_provider = GNews, req_query = ''q'', req_max = 10\<rparr>
        = Response 429 []
   \<and> api_call_count (fst (snd (search_single_api env_quota (state0, world0) ''q'' 10))) = 2
   \<and> search_log (snd (snd (search_single_api env_quota (state0, world0) ''q'' 10))) =
         [\<lparr>req_provider = GNews, req_query = ''q'', req_max = 10\<rparr>,
          \<lparr>req_provider = NewsAPI, req_query = ''q'', req_max = 10\<rparr>]
   \<and> \<not> gnews_available (fst (snd (search_single_api env_quota (state0, world0) ''q'' 10)))"
proof -
  have h: "gnews_available state0" "newsapi_available state0"
    "api_call_count state0 + 1 < MAX_API_CALLS"
    "http_search env_quota world0 \<lparr>req_provider = GNews, req_query = ''q'', req_max = 10\<rparr>
        = Response 429 []"
    "(429::int) = 429 \<or> (429::int) = 403"
    by (simp_all add: state0_def MAX_API_CALLS_def env_quota_def env_with_def)
  have z: "api_call_count state0 = 0" "search_log world0 = []"
    by (simp_all add: state0_def world0_def)
  show ?thesis
    using provider_failover [OF h, of env_quota world0 "''q''" 10] h z by simp
qed

section \<open>Single steps of the claim loop\<close>

lemma knowledge_step:
  assumes "c_needs_external_verification cd = Some False"
  shows "claims_loop env N (cd # rest) (c, acc, w) =
           claims_loop env N rest
             (c, acc @ [(base_result cd False)\<lparr>r_verification_result := Some ''verified_by_knowledge'',
                          r_historical_evidence := Some (c_historical_evidence cd)\<rparr>], w)"
  using assms by (simp add: Let_def)

text \<open>
  Claim C6. For a claim with \<^verbatim>\<open>needs_external_verification == false\<close> the loop body
  hands the counter and the world on to the next claim as they were, so no search request
  and no article fetch was made and the budget is untouched; the record it appends
  carries \<^verbatim>\<open>verified_by_knowledge\<close>, the claim's historical evidence, no article and
  \<^verbatim>\<open>total_tokens == 0\<close>. A run on that claim alone returns that record and the world
  unchanged.
\<close>

theorem knowledge_path_isolation:
  assumes "c_needs_external_verification cd = Some False"
  shows "\<exists>r. claims_loop env N (cd # rest) (c, acc, w) = claims_loop env N rest (c, acc @ [r], w)
           \<and> process_claims env w [cd] N = ([r], w)
           \<and> r_verification_result r = Some ''verified_by_knowledge''
           \<and> r_historical_evidence r = Some (c_historical_evidence cd)
           \<and> r_total_tokens r = 0 \<and> r_articles r = []
           \<and> r_claim r = c_claim cd \<and> r_needs_external_verification r = False"
proof -
  let ?r = "(base_result cd False)\<lparr>r_verification_result := Some ''verified_by_knowledge'',
                          r_historical_evidence := Some (c_historical_evidence cd)\<rparr>"
  have a: "claims_loop env N (cd # rest) (c, acc, w) = claims_loop env N rest (c, acc @ [?r], w)"
    by (rule knowledge_step [OF assms])
  have b: "process_claims env w [cd] N = ([?r], w)"
    using knowledge_step [OF assms, of env N "[]" 0 "[]" w] by (simp add: process_claims_def)
  have c: "r_verification_result ?r = Some ''verified_by_knowledge''
           \<and> r_historical_evidence ?r = Some (c_historical_evidence cd)
           \<and> r_total_tokens ?r = 0 \<and> r_articles ?r = []
           \<and> r_claim ?r = c_claim cd \<and> r_needs_external_verification ?r = False"
    by (simp add: base_result_fields)
  show ?thesis using a b c by blast
qed

theorem knowledge_path_isolation_witness:
  "c_needs_external_verification (sample_claim ''a'' ''q'' (Some False)) = Some False
   \<and> (\<exists>r. process_claims env_nothing world0 [sample_claim ''a'' ''q'' (Some False)] 3 = ([r], world0)
          \<and> r_verification_result r = Some ''verified_by_knowledge''
          \<and> r_historical_evidence r = Some ''known''
          \<and> r_total_tokens r = 0 \<and> r_articles r = [])"
proof -
  have h: "c_needs_external_verification (sample_claim ''a'' ''q'' (Some False)) = Some False"
    by (simp add: sample_claim_def)
  have e: "c_historical_evidence (sample_claim ''a'' ''q'' (Some False)) = ''known''"
    by (simp add: sample_claim_def)
  show ?thesis
    using knowledge_path_isolation [OF h, of env_nothing 3 "[]" 0 "[]" world0] h e
    by auto
qed

lemma empty_query_step:
  assumes "c_needs_external_verification cd \<noteq> Some False"
    and "c_claim cd = []" and "c_search_query cd = []" and "c < N"
  shows "claims_loop env N (cd # rest) (c, acc, w) =
           claims_loop env N rest (c, acc @ [base_result cd True], w)"
proof -
  have n: "(case c_needs_external_verification cd of None \<Rightarrow> True | Some b \<Rightarrow> b) = True"
    using assms(1) by (cases "c_needs_external_verification cd") auto
  have v: "verify_externally env N cd (base_result cd True) (c, w) = (base_result cd True, c, w)"
    using assms(2,3) by (simp add: verify_externally_def Let_def)
  show ?thesis using assms(4) by (simp add: n v Let_def)
qed

lemma budget_stop_step:
  assumes "c_needs_external_verification cd \<noteq> Some False" and "N \<le> c"
  shows "claims_loop env N (cd # rest) (c, acc, w) = (c, acc, w)"
proof -
  have n: "(case c_needs_external_verification cd of None \<Rightarrow> True | Some b \<Rightarrow> b) = True"
    using assms(1) by (cases "c_needs_external_verification cd") auto
  show ?thesis using assms(2) by (simp add: n Let_def)
qed

text \<open>
  Claim C10, as amended. For a claim that needs external verification (the flag true or
  absent) and whose claim text and search query are both empty: when the loop reaches it
  with the counter below the ceiling, it appends a record with no \<^verbatim>\<open>verification_result\<close>
  at all, no article and \<^verbatim>\<open>total_tokens == 0\<close>, and goes on with the counter and the
  world unchanged; when the counter is at the ceiling the loop stops and the claim gets
  no record.
\<close>

theorem empty_query_record:
  assumes "c_needs_external_verification cd \<noteq> Some False"
    and "c_claim cd = []" and "c_search_query cd = []"
  shows "(c < N \<longrightarrow>
          (\<exists>r. claims_loop env N (cd # rest) (c, acc, w) = claims_loop env N rest (c, acc @ [r], w)
              \<and> r_verification_result r = None \<and> r_articles r = [] \<and> r_total_tokens r = 0))
       \<and> (N \<le> c \<longrightarrow> claims_loop env N (cd # rest) (c, acc, w) = (c, acc, w))"
proof -
  have "r_verification_result (base_result cd True) = None
        \<and> r_articles (base_result cd True) = [] \<and> r_total_tokens (base_result cd True) = 0"
    by (simp add: base_result_fields)
  then show ?thesis
    using empty_query_step [OF assms, of c N env rest acc w]
      budget_stop_step [OF assms(1), of N c env rest acc w]
    by blast
qed

theorem empty_query_record_witness:
  "c_needs_external_verification (sample_claim '''' '''' None) \<noteq> Some False
   \<and> c_claim (sample_claim '''' '''' None) = [] \<and> c_search_query (sample_claim '''' '''' None) = []
   \<and> (0::int) < 1
   \<and> (\<exists>r. process_claims env_down world0 [sample_claim '''' '''' None] 1 = ([r], world0)
          \<and> r_verification_result r = None \<and> r_articles r = [] \<and> r_total_tokens r = 0)
   \<and> (0::int) \<le> 0
   \<and> process_claims env_down world0 [sample_claim '''' '''' None] 0 = ([], world0)"
proof -
  have h: "c_needs_external_verification (sample_claim '''' '''' None) \<noteq> Some False"
    "c_claim (sample_claim '''' '''' None) = []" "c_search_query (sample_claim '''' '''' None) = []"
    by (simp_all add: sample_claim_def)
  show ?thesis
    using empty_query_record [OF h, of 0 1 env_down "[]" "[]" world0]
      empty_query_record [OF h, of 0 0 env_down "[]" "[]" world0] h
    by (auto simp: process_claims_def)
qed

text \<open>
  Claim C10 as stated fails where the budget is exhausted: with ceiling 0 the run on such
  a claim returns no record, and with ceiling 1 after a claim that used the one call the
  run returns the record of the first claim only.
\<close>

theorem empty_query_record_counterexample:
  "c_needs_external_verification (sample_claim '''' '''' None) = None
   \<and> c_claim (sample_claim '''' '''' None) = [] \<and> c_search_query (sample_claim '''' '''' None) = []
   \<and> fst (process_claims env_down world0 [sample_claim '''' '''' None] 0) = []
   \<and> map r_claim (fst (process_claims env_down world0
        [sample_claim ''a'' ''a'' None, sample_claim '''' '''' None] 1)) = [''a'']"
  by code_simp


end
